theory Spec2Isabelle
  imports Complex_Main
begin

section \<open>Monte Carlo, NVT ensemble, hard spheres: the program \<open>mc_nvt_hs.py\<close>\<close>

text \<open>
  The embedding follows \<open>src/python_examples/mc_nvt_hs.py\<close>. Python floats and numpy
  float arrays are modelled by exact reals, Python integers by \<open>int\<close> (counts that start
  at 0 and only grow by \<open>nat\<close>). An uncaught Python exception is a value of type \<open>error\<close>;
  everything the program prints, every call into the averaging collaborator and every
  configuration file it writes is an \<open>event\<close> of the run's trace.
\<close>

subsection \<open>Vectors and the periodic wrap\<close>

type_synonym vec = "real \<times> real \<times> real"

fun vec_add :: "vec \<Rightarrow> vec \<Rightarrow> vec" where
  "vec_add (a1, a2, a3) (b1, b2, b3) = (a1 + b1, a2 + b2, a3 + b3)"

fun vec_sub :: "vec \<Rightarrow> vec \<Rightarrow> vec" where
  "vec_sub (a1, a2, a3) (b1, b2, b3) = (a1 - b1, a2 - b2, a3 - b3)"

fun vec_scale :: "vec \<Rightarrow> real \<Rightarrow> vec" where
  "vec_scale (a1, a2, a3) s = (a1 * s, a2 * s, a3 * s)"

fun vec_div :: "vec \<Rightarrow> real \<Rightarrow> vec" where
  "vec_div (a1, a2, a3) s = (a1 / s, a2 / s, a3 / s)"

fun coords :: "vec \<Rightarrow> real list" where
  "coords (a1, a2, a3) = [a1, a2, a3]"

text \<open>
  \<open>np.rint\<close> rounds to the nearest integer and, exactly half way between two integers,
  to the even one.
\<close>

definition rint :: "real \<Rightarrow> real" where
  "rint x =
     (let f = \<lfloor>x\<rfloor>; d = x - of_int f
      in if d < 1 / 2 then of_int f
         else if 1 / 2 < d then of_int (f + 1)
         else if even f then of_int f else of_int (f + 1))"

fun vec_rint :: "vec \<Rightarrow> vec" where
  "vec_rint (a1, a2, a3) = (rint a1, rint a2, rint a3)"

text \<open>The expression \<open>v - np.rint ( v )\<close> of lines 122 and 141.\<close>

definition wrap :: "vec \<Rightarrow> vec" where
  "wrap v = vec_sub v (vec_rint v)"

text \<open>\<open>np.delete(r,i,0)\<close>: a copy of the array without row \<open>i\<close>.\<close>

definition np_delete :: "'a list \<Rightarrow> nat \<Rightarrow> 'a list" where
  "np_delete xs i = take i xs @ drop (Suc i) xs"

subsection \<open>Python values, errors, events\<close>

datatype json =
    JNull
  | JBool bool
  | JInt int
  | JFloat real
  | JStr string
  | JList "json list"
  | JObj "(string \<times> json) list"

datatype pytype = NoneType | PyBool | PyInt | PyFloat | PyStr | PyList | PyDict

fun type_of :: "json \<Rightarrow> pytype" where
  "type_of JNull = NoneType"
| "type_of (JBool b) = PyBool"
| "type_of (JInt k) = PyInt"
| "type_of (JFloat x) = PyFloat"
| "type_of (JStr s) = PyStr"
| "type_of (JList xs) = PyList"
| "type_of (JObj kvs) = PyDict"

datatype error =
    AssertionError string
  | ZeroDivisionError
  | IndexError
  | NameError string
  | AttributeError
  | TypeError

record VariableType =
  nam :: string
  val :: real

datatype event =
    Print string
  | PrintInt string int
  | PrintReal string real
  | Warning string
  | Introduction
  | Conclusion
  | WriteVariables "VariableType list"
  | RunBegin "VariableType list"
  | BlkBegin
  | BlkAdd "VariableType list"
  | BlkEnd int
  | RunEnd
  | WriteCnfAtoms string nat real "vec list"

subsection \<open>Collaborators that are not part of the program file\<close>

text \<open>
  The overlap routines come from \<open>mc_hs_fast_module\<close> or \<open>mc_hs_slow_module\<close>, whichever
  the flag \<open>fast\<close> selects, and the trial displacement from \<open>maths_module\<close>. They are
  parameters of the model. The state of numpy's global random generator is a value of the
  type variable \<open>'g\<close>, threaded through every call of \<open>random_translate_vector\<close>.
\<close>

record hs_module =
  overlap :: "real \<Rightarrow> vec list \<Rightarrow> bool"
  overlap_1 :: "vec \<Rightarrow> real \<Rightarrow> vec list \<Rightarrow> bool"
  n_overlap :: "real \<Rightarrow> vec list \<Rightarrow> int"

record 'g collaborators =
  mc_hs_fast_module :: hs_module
  mc_hs_slow_module :: hs_module
  random_translate_vector :: "real \<Rightarrow> vec \<Rightarrow> 'g \<Rightarrow> vec \<times> 'g"

record params =
  nblock :: int
  nstep :: int
  dr_max :: real
  eps_box :: real
  fast :: bool

definition hs_module_of :: "'g collaborators \<Rightarrow> params \<Rightarrow> hs_module" where
  "hs_module_of env p = (if fast p then mc_hs_fast_module env else mc_hs_slow_module env)"

subsection \<open>\<open>calculate\<close> (lines 4 to 49)\<close>

text \<open>
  The globals \<open>n\<close>, \<open>box\<close>, \<open>r\<close>, \<open>m_ratio\<close> and the parameters that the function reads are
  arguments; \<open>m_ratio\<close> is \<open>None\<close> as long as line 148 has not assigned it. A float
  division by zero raises. The second component of the result is what the call prints.
\<close>

definition calculate ::
  "'g collaborators \<Rightarrow> params \<Rightarrow> nat \<Rightarrow> real \<Rightarrow> vec list \<Rightarrow> real option \<Rightarrow> string option
     \<Rightarrow> error + (VariableType list \<times> event list)" where
  "calculate env p n box rs m_ratio string =
     (if 1 + eps_box p = 0 then Inl ZeroDivisionError
      else if 3 * eps_box p = 0 then Inl ZeroDivisionError
      else
        let vir = real_of_int (n_overlap (hs_module_of env p) (box / (1 + eps_box p)) rs)
                    / (3 * eps_box p);
            vol = box ^ 3
        in if vol = 0 then Inl ZeroDivisionError
           else
             let rho = real n / vol;
                 p_f = \<lparr>nam = ''P'', val = rho + vir / vol\<rparr>
             in (case string of
                   None \<Rightarrow>
                     (case m_ratio of
                        None \<Rightarrow> Inl (NameError ''m_ratio'')
                      | Some m \<Rightarrow> Inr ([\<lparr>nam = ''Move ratio'', val = m\<rparr>, p_f], []))
                 | Some s \<Rightarrow>
                     Inr ([\<lparr>nam = ''Move ratio'', val = 0\<rparr>, p_f],
                          [Print s, WriteVariables [p_f]])))"

subsection \<open>One trial move, one sweep, one step (lines 135 to 151)\<close>

text \<open>
  The body of the loop over atoms, on the array \<open>r\<close>, the counter \<open>moves\<close> and the state of
  the random generator. The quotient \<open>dr_max/box\<close> is evaluated first, then \<open>r[i,:]\<close>.
\<close>

definition move_atom ::
  "'g collaborators \<Rightarrow> params \<Rightarrow> real \<Rightarrow> nat \<Rightarrow> vec list \<times> nat \<times> 'g
     \<Rightarrow> error + (vec list \<times> nat \<times> 'g)" where
  "move_atom env p box i s =
     (case s of (rs, moves, g) \<Rightarrow>
        if box = 0 then Inl ZeroDivisionError
        else if length rs \<le> i then Inl IndexError
        else
          (case random_translate_vector env (dr_max p / box) (rs ! i) g of (ri0, g') \<Rightarrow>
             let ri = wrap ri0;
                 rj = np_delete rs i
             in if \<not> overlap_1 (hs_module_of env p) ri box rj
                then Inr (rs[i := ri], moves + 1, g')
                else Inr (rs, moves, g')))"

fun sweep_atoms ::
  "'g collaborators \<Rightarrow> params \<Rightarrow> real \<Rightarrow> nat list \<Rightarrow> vec list \<times> nat \<times> 'g
     \<Rightarrow> error + (vec list \<times> nat \<times> 'g)" where
  "sweep_atoms env p box [] s = Inr s"
| "sweep_atoms env p box (i # is) s =
     (case move_atom env p box i s of
        Inl e \<Rightarrow> Inl e
      | Inr s' \<Rightarrow> sweep_atoms env p box is s')"

record 'g state =
  r :: "vec list"
  rng :: 'g
  trace :: "event list"

type_synonym failure = "error \<times> event list"

text \<open>The body of the loop over steps: lines 137 to 151.\<close>

definition step ::
  "'g collaborators \<Rightarrow> params \<Rightarrow> nat \<Rightarrow> real \<Rightarrow> 'g state \<Rightarrow> failure + 'g state" where
  "step env p n box st =
     (case sweep_atoms env p box [0..<n] (r st, 0, rng st) of
        Inl e \<Rightarrow> Inl (e, trace st)
      | Inr (rs, moves, g) \<Rightarrow>
          if n = 0 then Inl (ZeroDivisionError, trace st)
          else
            let m_ratio = real moves / real n
            in (case calculate env p n box rs (Some m_ratio) None of
                  Inl e \<Rightarrow> Inl (e, trace st)
                | Inr (variables, ev) \<Rightarrow>
                    Inr \<lparr>r = rs, rng = g, trace = trace st @ ev @ [BlkAdd variables]\<rparr>))"

fun run_steps ::
  "'g collaborators \<Rightarrow> params \<Rightarrow> nat \<Rightarrow> real \<Rightarrow> nat \<Rightarrow> 'g state \<Rightarrow> failure + 'g state" where
  "run_steps env p n box 0 st = Inr st"
| "run_steps env p n box (Suc k) st =
     (case step env p n box st of
        Inl f \<Rightarrow> Inl f
      | Inr st' \<Rightarrow> run_steps env p n box k st')"

subsection \<open>Checkpoint tags and one block (lines 131 to 155)\<close>

definition cnf_prefix :: string where "cnf_prefix = ''cnf.''"
definition inp_tag :: string where "inp_tag = ''inp''"
definition out_tag :: string where "out_tag = ''out''"

definition digit_char :: "nat \<Rightarrow> char" where
  "digit_char d = ''0123456789'' ! d"

text \<open>Python's \<open>str\<close> on an integer, and \<open>str.zfill\<close>, which pads behind a leading sign.\<close>

fun str_nat :: "nat \<Rightarrow> string" where
  "str_nat k = (if k < 10 then [digit_char k] else str_nat (k div 10) @ [digit_char (k mod 10)])"

declare str_nat.simps [simp del]

definition str_int :: "int \<Rightarrow> string" where
  "str_int k = (if k < 0 then CHR ''-'' # str_nat (nat (- k)) else str_nat (nat k))"

definition zfill :: "nat \<Rightarrow> string \<Rightarrow> string" where
  "zfill width s =
     (case s of
        [] \<Rightarrow> replicate width CHR ''0''
      | c # cs \<Rightarrow>
          if c = CHR ''-'' \<or> c = CHR ''+''
          then c # replicate (width - length s) CHR ''0'' @ cs
          else replicate (width - length s) CHR ''0'' @ s)"

definition block_tag :: "int \<Rightarrow> string" where
  "block_tag blk = (if blk < 1000 then zfill 3 (str_int blk) else ''sav'')"

definition real_units :: "real \<Rightarrow> vec list \<Rightarrow> vec list" where
  "real_units box rs = map (\<lambda>v. vec_scale v box) rs"

text \<open>The body of the loop over blocks: \<open>blk_begin\<close>, the steps, \<open>blk_end\<close>, the checkpoint.\<close>

definition run_block ::
  "'g collaborators \<Rightarrow> params \<Rightarrow> nat \<Rightarrow> real \<Rightarrow> int \<Rightarrow> 'g state \<Rightarrow> failure + 'g state" where
  "run_block env p n box blk st =
     (case run_steps env p n box (nat (nstep p)) (st\<lparr>trace := trace st @ [BlkBegin]\<rparr>) of
        Inl f \<Rightarrow> Inl f
      | Inr st' \<Rightarrow>
          let sav_tag = block_tag blk
          in Inr (st'\<lparr>trace := trace st' @
                    [BlkEnd blk,
                     WriteCnfAtoms (cnf_prefix @ sav_tag) n box (real_units box (r st'))]\<rparr>))"

fun run_blocks ::
  "'g collaborators \<Rightarrow> params \<Rightarrow> nat \<Rightarrow> real \<Rightarrow> int list \<Rightarrow> 'g state \<Rightarrow> failure + 'g state" where
  "run_blocks env p n box [] st = Inr st"
| "run_blocks env p n box (blk # blks) st =
     (case run_block env p n box blk st of
        Inl f \<Rightarrow> Inl f
      | Inr st' \<Rightarrow> run_blocks env p n box blks st')"

subsection \<open>Parameters (lines 81 to 101)\<close>

text \<open>
  A Python dict is an association list in insertion order, with distinct keys;
  \<open>json.load\<close> gives one to the program when the top-level JSON value is an object.
\<close>

definition defaults :: "(string \<times> json) list" where
  "defaults =
     [(''nblock'', JInt 10), (''nstep'', JInt 1000), (''dr_max'', JFloat (15 / 100)),
      (''eps_box'', JFloat (5 / 1000)), (''fast'', JBool True)]"

text \<open>The loop of lines 90 to 94; a warning is printed for a key that is not a default.\<close>

fun check_keys :: "(string \<times> json) list \<Rightarrow> event list \<Rightarrow> failure + event list" where
  "check_keys [] tr = Inr tr"
| "check_keys ((key, v) # items) tr =
     (case map_of defaults key of
        Some d \<Rightarrow>
          if type_of v = type_of d then check_keys items tr
          else Inl (AssertionError (key @ '' has the wrong type''), tr)
      | None \<Rightarrow> check_keys items (tr @ [Warning key]))"

text \<open>\<open>nml[key] if key in nml else defaults[key]\<close>.\<close>

definition param :: "(string \<times> json) list \<Rightarrow> string \<Rightarrow> json option" where
  "param nml key = (case map_of nml key of Some v \<Rightarrow> Some v | None \<Rightarrow> map_of defaults key)"

text \<open>
  The program uses the five values as two integers, two floats and a truth value. After
  \<open>check_keys\<close> they have these types; a value of another type would raise at its first
  use.
\<close>

definition set_parameters :: "(string \<times> json) list \<Rightarrow> error + params" where
  "set_parameters nml =
     (case param nml ''nblock'' of
        Some (JInt nb) \<Rightarrow>
          (case param nml ''nstep'' of
             Some (JInt ns) \<Rightarrow>
               (case param nml ''dr_max'' of
                  Some (JFloat dr) \<Rightarrow>
                    (case param nml ''eps_box'' of
                       Some (JFloat eps) \<Rightarrow>
                         (case param nml ''fast'' of
                            Some (JBool f) \<Rightarrow>
                              Inr \<lparr>nblock = nb, nstep = ns, dr_max = dr, eps_box = eps, fast = f\<rparr>
                          | _ \<Rightarrow> Inl TypeError)
                     | _ \<Rightarrow> Inl TypeError)
                | _ \<Rightarrow> Inl TypeError)
           | _ \<Rightarrow> Inl TypeError)
      | _ \<Rightarrow> Inl TypeError)"

subsection \<open>The main program (lines 73 to 163)\<close>

text \<open>Lines 121 and 122: positions in box units, then the periodic wrap.\<close>

definition load_positions :: "real \<Rightarrow> vec list \<Rightarrow> vec list" where
  "load_positions box r_inp = map wrap (map (\<lambda>v. vec_div v box) r_inp)"

datatype 'g outcome =
    Exited "event list"
  | Aborted error "event list"
  | Finished "'g state"

text \<open>
  Lines 103 to 163, once the parameters are set: the configuration \<open>cnf\<close> is the triple that
  \<open>read_cnf_atoms\<close> returns for the file \<open>cnf.inp\<close>, \<open>g0\<close> the state of the random
  generator after \<open>np.random.seed()\<close>, \<open>tr1\<close> what has been printed so far.
\<close>

definition simulate ::
  "'g collaborators \<Rightarrow> params \<Rightarrow> nat \<times> real \<times> vec list \<Rightarrow> 'g \<Rightarrow> event list \<Rightarrow> 'g outcome" where
  "simulate env p cnf g0 tr1 =
     (case cnf of (n, box, r_inp) \<Rightarrow>
        let tr2 = tr1 @
              [Introduction,
               PrintInt ''Number of blocks'' (nblock p),
               PrintInt ''Number of steps per block'' (nstep p),
               PrintReal ''Maximum displacement'' (dr_max p),
               PrintReal ''Pressure scaling parameter'' (eps_box p),
               PrintInt ''Number of particles'' (int n),
               PrintReal ''Box length'' box]
        in if box ^ 3 = 0 then Aborted ZeroDivisionError tr2
           else
             let tr3 = tr2 @ [PrintReal ''Density'' (real n / box ^ 3)];
                 r2 = load_positions box r_inp
             in if overlap (hs_module_of env p) box r2
                then Aborted (AssertionError ''Overlap in initial configuration'') tr3
                else
                  (case calculate env p n box r2 None (Some ''Initial values'') of
                     Inl e \<Rightarrow> Aborted e tr3
                   | Inr (variables, ev) \<Rightarrow>
                       (case run_blocks env p n box [1..nblock p]
                               \<lparr>r = r2, rng = g0, trace = tr3 @ ev @ [RunBegin variables]\<rparr> of
                          Inl (e, tr) \<Rightarrow> Aborted e tr
                        | Inr st \<Rightarrow>
                            let tr4 = trace st @ [RunEnd] in
                            (case calculate env p n box (r st) None (Some ''Final values'') of
                               Inl e \<Rightarrow> Aborted e tr4
                             | Inr (variables', ev') \<Rightarrow>
                                 if overlap (hs_module_of env p) box (r st)
                                 then Aborted (AssertionError ''Overlap in final configuration'')
                                        (tr4 @ ev')
                                 else Finished
                                        (st\<lparr>trace := tr4 @ ev' @
                                           [WriteCnfAtoms (cnf_prefix @ out_tag) n box
                                              (real_units box (r st)),
                                            Conclusion]\<rparr>)))))"

definition banner :: "event list" where
  "banner = [Print ''mc_nvt_hs'', Print ''Monte Carlo, constant-NVT ensemble'']"

text \<open>
  The whole program. Standard input is \<open>None\<close> when it is not valid JSON; a JSON value
  that is not an object has no method \<open>items\<close>.
\<close>

definition main ::
  "'g collaborators \<Rightarrow> json option \<Rightarrow> nat \<times> real \<times> vec list \<Rightarrow> 'g \<Rightarrow> 'g outcome" where
  "main env stdin cnf g0 =
     (case stdin of
        None \<Rightarrow> Exited (banner @ [Print ''Exiting on Invalid JSON format''])
      | Some (JObj nml) \<Rightarrow>
          (case check_keys nml banner of
             Inl (e, tr) \<Rightarrow> Aborted e tr
           | Inr tr1 \<Rightarrow>
               (case set_parameters nml of
                  Inl e \<Rightarrow> Aborted e tr1
                | Inr p \<Rightarrow> simulate env p cnf g0 tr1))
      | Some _ \<Rightarrow> Aborted AttributeError banner)"

subsection \<open>The overlap routines and the move sampler, as the specification describes them\<close>

text \<open>
  Modelled from the spec: \<open>minimumImageDelta\<close> of the GeometryKernel, whose code
  (\<open>mc_hs_fast_module\<close>, \<open>mc_hs_slow_module\<close>) is not part of the program file. The
  componentwise difference, each component shifted to the nearest representative by
  subtracting its rounded value.
\<close>

definition minimumImageDelta :: "vec \<Rightarrow> vec \<Rightarrow> vec" where
  "minimumImageDelta a b = wrap (vec_sub a b)"

text \<open>
  Modelled from the spec: \<open>squaredDistance\<close> of the GeometryKernel (code not part of the
  program file), the squared magnitude of \<open>minimumImageDelta\<close>.
\<close>

definition squaredDistance :: "vec \<Rightarrow> vec \<Rightarrow> real" where
  "squaredDistance a b = (case minimumImageDelta a b of (x, y, z) \<Rightarrow> x ^ 2 + y ^ 2 + z ^ 2)"

text \<open>
  Modelled from the spec: the test of the OverlapDetector on one pair, whose code is not
  part of the program file: \<open>squaredDistance * box\<^sup>2 < 1\<close>, the diameter being 1.
\<close>

definition pair_overlaps :: "real \<Rightarrow> vec \<Rightarrow> vec \<Rightarrow> bool" where
  "pair_overlaps box a b = (squaredDistance a b * box ^ 2 < 1)"

text \<open>
  Modelled from the spec: \<open>overlapsAny\<close> (the routine \<open>overlap\<close> of the absent modules):
  whether some unordered pair of distinct particles passes the pair test.
\<close>

fun overlapsAny :: "real \<Rightarrow> vec list \<Rightarrow> bool" where
  "overlapsAny box [] = False"
| "overlapsAny box (a # rs) = (list_ex (pair_overlaps box a) rs \<or> overlapsAny box rs)"

text \<open>
  Modelled from the spec: \<open>overlapsWithOne\<close> (the routine \<open>overlap_1\<close> of the absent
  modules): the pair test of the trial position against every given position. The program
  passes the positions of the other particles only (\<open>np.delete\<close>), which is the spec's
  exclusion of the moved index.
\<close>

definition overlapsWithOne :: "vec \<Rightarrow> real \<Rightarrow> vec list \<Rightarrow> bool" where
  "overlapsWithOne ri box rj = list_ex (pair_overlaps box ri) rj"

text \<open>
  Modelled from the spec: \<open>countOverlaps\<close> (the routine \<open>n_overlap\<close> of the absent modules):
  the number of unordered pairs of distinct particles that pass the pair test.
\<close>

fun countOverlaps :: "real \<Rightarrow> vec list \<Rightarrow> int" where
  "countOverlaps box [] = 0"
| "countOverlaps box (a # rs) =
     int (length (filter (pair_overlaps box a) rs)) + countOverlaps box rs"

text \<open>
  Modelled from the spec: \<open>proposeMove\<close> of the MoveSampler (the routine
  \<open>random_translate_vector\<close> of the absent \<open>maths_module\<close>): \<open>position + maxStep * (2u - 1)\<close>
  on each axis, then wrapped. The three numbers \<open>u\<close> are drawn by \<open>uniform3\<close> from the
  generator.
\<close>

definition proposeMove :: "('g \<Rightarrow> vec \<times> 'g) \<Rightarrow> vec \<Rightarrow> real \<Rightarrow> 'g \<Rightarrow> vec \<times> 'g" where
  "proposeMove uniform3 position maxStep g =
     (case uniform3 g of
        (u, g') \<Rightarrow>
          (wrap (vec_add position
                   (vec_scale (vec_sub (vec_scale u 2) (1, 1, 1)) maxStep)), g'))"

definition spec_module :: hs_module where
  "spec_module = \<lparr>overlap = overlapsAny, overlap_1 = overlapsWithOne, n_overlap = countOverlaps\<rparr>"

text \<open>
  The spec requires the fast and the slow routines to give identical verdicts, so both
  modules are the same record here.
\<close>

definition spec_collaborators :: "('g \<Rightarrow> vec \<times> 'g) \<Rightarrow> 'g collaborators" where
  "spec_collaborators uniform3 =
     \<lparr>mc_hs_fast_module = spec_module, mc_hs_slow_module = spec_module,
      random_translate_vector = (\<lambda>maxStep old g. proposeMove uniform3 old maxStep g)\<rparr>"

subsection \<open>Where a coordinate may lie\<close>

definition in_cell_closed :: "vec \<Rightarrow> bool" where
  "in_cell_closed v = list_all (\<lambda>c. - (1 / 2) \<le> c \<and> c \<le> 1 / 2) (coords v)"

definition in_cell_half_open :: "vec \<Rightarrow> bool" where
  "in_cell_half_open v = list_all (\<lambda>c. - (1 / 2) \<le> c \<and> c < 1 / 2) (coords v)"

subsection \<open>Reading the parameters and the trace\<close>

definition default_keys :: "string list" where
  "default_keys = map fst defaults"

text \<open>An item of the input passes line 92: its key is no default, or the types agree.\<close>

definition well_typed :: "string \<times> json \<Rightarrow> bool" where
  "well_typed kv =
     (case map_of defaults (fst kv) of None \<Rightarrow> True | Some d \<Rightarrow> type_of (snd kv) = type_of d)"

definition unknown_keys :: "(string \<times> json) list \<Rightarrow> string list" where
  "unknown_keys nml = filter (\<lambda>key. map_of defaults key = None) (map fst nml)"

text \<open>What \<open>simulate\<close> prints before the overlap check of line 125.\<close>

definition load_report :: "params \<Rightarrow> nat \<Rightarrow> real \<Rightarrow> event list" where
  "load_report p n box =
     [Introduction,
      PrintInt ''Number of blocks'' (nblock p),
      PrintInt ''Number of steps per block'' (nstep p),
      PrintReal ''Maximum displacement'' (dr_max p),
      PrintReal ''Pressure scaling parameter'' (eps_box p),
      PrintInt ''Number of particles'' (int n),
      PrintReal ''Box length'' box,
      PrintReal ''Density'' (real n / box ^ 3)]"

text \<open>The events of the Monte Carlo run proper: averaging calls and configuration files.\<close>

fun simulation_event :: "event \<Rightarrow> bool" where
  "simulation_event (RunBegin vs) = True"
| "simulation_event BlkBegin = True"
| "simulation_event (BlkAdd vs) = True"
| "simulation_event (BlkEnd blk) = True"
| "simulation_event RunEnd = True"
| "simulation_event (WriteCnfAtoms name n box rs) = True"
| "simulation_event e = False"

text \<open>The names of the configuration files that a trace writes, in order.\<close>

fun checkpoints :: "event list \<Rightarrow> string list" where
  "checkpoints [] = []"
| "checkpoints (WriteCnfAtoms name n box rs # es) = name # checkpoints es"
| "checkpoints (e # es) = checkpoints es"

subsection \<open>A small run, for evaluating the definitions\<close>

text \<open>The parameters of an empty input \<open>{}\<close>.\<close>

definition default_params :: params where
  "default_params = \<lparr>nblock = 10, nstep = 1000, dr_max = 15 / 100, eps_box = 5 / 1000, fast = True\<rparr>"

text \<open>A generator that counts its draws and always returns the same three numbers.\<close>

definition steady_uniform3 :: "nat \<Rightarrow> vec \<times> nat" where
  "steady_uniform3 k = ((3 / 4, 1 / 2, 1 / 2), Suc k)"

definition steady_env :: "nat collaborators" where
  "steady_env = spec_collaborators steady_uniform3"

text \<open>Two blocks of one step each.\<close>

definition short_params :: params where
  "short_params = \<lparr>nblock = 2, nstep = 1, dr_max = 15 / 100, eps_box = 5 / 1000, fast = True\<rparr>"

text \<open>The parameters of the input \<open>{"dr_max": 0.0}\<close>.\<close>

definition still_params :: params where
  "still_params = \<lparr>nblock = 10, nstep = 1000, dr_max = 0, eps_box = 5 / 1000, fast = True\<rparr>"

text \<open>What that run prints, hands to the averaging collaborator and writes.\<close>

definition short_run_trace :: "event list" where
  "short_run_trace =
     [Print ''mc_nvt_hs'', Print ''Monte Carlo, constant-NVT ensemble'',
      Introduction, PrintInt ''Number of blocks'' 2,
      PrintInt ''Number of steps per block'' 1,
      PrintReal ''Maximum displacement'' (3 / 20),
      PrintReal ''Pressure scaling parameter'' (1 / 200),
      PrintInt ''Number of particles'' 2, PrintReal ''Box length'' 10,
      PrintReal ''Density'' (1 / 500), Print ''Initial values'',
      WriteVariables [\<lparr>nam = ''P'', val = 1 / 500\<rparr>],
      RunBegin [\<lparr>nam = ''Move ratio'', val = 0\<rparr>, \<lparr>nam = ''P'', val = 1 / 500\<rparr>],
      BlkBegin,
      BlkAdd [\<lparr>nam = ''Move ratio'', val = 1\<rparr>, \<lparr>nam = ''P'', val = 1 / 500\<rparr>],
      BlkEnd 1,
      WriteCnfAtoms ''cnf.001'' 2 10 [(3 / 40, 0, 0), (- (197 / 40), 5, 5)],
      BlkBegin,
      BlkAdd [\<lparr>nam = ''Move ratio'', val = 1\<rparr>, \<lparr>nam = ''P'', val = 1 / 500\<rparr>],
      BlkEnd 2,
      WriteCnfAtoms ''cnf.002'' 2 10 [(3 / 20, 0, 0), (- (97 / 20), 5, 5)],
      RunEnd, Print ''Final values'',
      WriteVariables [\<lparr>nam = ''P'', val = 1 / 500\<rparr>],
      WriteCnfAtoms ''cnf.out'' 2 10 [(3 / 20, 0, 0), (- (97 / 20), 5, 5)],
      Conclusion]"

section \<open>Properties\<close>

subsection \<open>Rounding\<close>

lemma rint_bound: "\<bar>x - rint x\<bar> \<le> 1 / 2"
  unfolding rint_def Let_def by (auto simp: abs_le_iff) (linarith+)?

lemma rint_minus: "rint (- x) = - rint x"
proof (cases "x \<in> \<int>")
  case True
  then obtain k :: int where "x = of_int k" by (auto elim: Ints_cases)
  then show ?thesis by (simp add: rint_def Let_def flip: of_int_minus)
next
  case False
  define f where "f = \<lfloor>x\<rfloor>"
  define d where "d = x - of_int f"
  from False have ne: "x \<noteq> of_int \<lfloor>x\<rfloor>" by (metis Ints_of_int)
  then have fm: "\<lfloor>- x\<rfloor> = - f - 1"
    by (simp add: floor_minus ceiling_altdef f_def)
  have "of_int \<lfloor>x\<rfloor> \<le> x" by (rule of_int_floor_le)
  with ne have "of_int \<lfloor>x\<rfloor> < x" by linarith
  then have d0: "0 < d" by (simp add: d_def f_def)
  have dm: "- x - of_int (- f - 1) = 1 - d" by (simp add: d_def)
  have ev: "even (- f - 1) \<longleftrightarrow> odd f" by simp
  have A: "rint x = (if d < 1 / 2 then of_int f
         else if 1 / 2 < d then of_int (f + 1)
         else if even f then of_int f else of_int (f + 1))"
    by (simp add: rint_def Let_def f_def d_def)
  have B: "rint (- x) = (if 1 - d < 1 / 2 then of_int (- f - 1)
         else if 1 / 2 < 1 - d then of_int (- f - 1 + 1)
         else if odd f then of_int (- f - 1) else of_int (- f - 1 + 1))"
    unfolding rint_def Let_def fm dm ev by simp
  show ?thesis unfolding A B using d0 by auto
qed

lemma wrap_in_cell_closed: "in_cell_closed (wrap v)"
proof (cases v)
  case (fields a b c)
  have "- (1 / 2) \<le> x - rint x \<and> x - rint x \<le> 1 / 2" for x
    using rint_bound[of x] by linarith
  then show ?thesis
    by (simp add: fields wrap_def in_cell_closed_def del: divide_minus_left)
qed

subsection \<open>The loops\<close>

text \<open>
  What a returning sweep, step, block and run consist of, and that a property of the
  position array which every trial move keeps is kept by the whole run.
\<close>

lemma sweep_atoms_moves:
  "sweep_atoms env p box js (rs, moves, g) = Inr (rs', moves', g') \<Longrightarrow>
     moves \<le> moves' \<and> moves' \<le> moves + length js \<and> length rs' = length rs"
proof (induction js arbitrary: rs moves g)
  case Nil
  then show ?case by simp
next
  case (Cons i js)
  from Cons.prems obtain rs1 m1 g1 where
    a: "move_atom env p box i (rs, moves, g) = Inr (rs1, m1, g1)" and
    b: "sweep_atoms env p box js (rs1, m1, g1) = Inr (rs', moves', g')"
    by (auto split: sum.splits)
  from a have "moves \<le> m1 \<and> m1 \<le> moves + 1 \<and> length rs1 = length rs"
    by (auto simp: move_atom_def Let_def split: if_splits prod.splits)
  with Cons.IH[OF b] show ?case by simp
qed

lemma sweep_atoms_append:
  "sweep_atoms env p box (js @ ks) s =
     (case sweep_atoms env p box js s of
        Inl e \<Rightarrow> Inl e
      | Inr s' \<Rightarrow> sweep_atoms env p box ks s')"
  by (induction js arbitrary: s) (auto split: sum.splits)

lemma sweep_atoms_invariant:
  assumes mv: "\<And>i rs m g rs' m' g'.
      P rs \<Longrightarrow> move_atom env p box i (rs, m, g) = Inr (rs', m', g') \<Longrightarrow> P rs'"
  shows "P rs \<Longrightarrow> sweep_atoms env p box js (rs, m, g) = Inr (rs', m', g') \<Longrightarrow> P rs'"
proof (induction js arbitrary: rs m g)
  case Nil
  then show ?case by simp
next
  case (Cons i js)
  from Cons.prems(2) obtain rs1 m1 g1 where
    a: "move_atom env p box i (rs, m, g) = Inr (rs1, m1, g1)" and
    b: "sweep_atoms env p box js (rs1, m1, g1) = Inr (rs', m', g')"
    by (auto split: sum.splits)
  from mv[OF Cons.prems(1) a] have "P rs1" .
  from Cons.IH[OF this b] show ?case .
qed

lemma step_Inr:
  "step env p n box st = Inr st' \<Longrightarrow>
     \<exists>moves vs ev. sweep_atoms env p box [0..<n] (r st, 0, rng st) = Inr (r st', moves, rng st') \<and>
        0 < n \<and> calculate env p n box (r st') (Some (real moves / real n)) None = Inr (vs, ev) \<and>
        trace st' = trace st @ ev @ [BlkAdd vs]"
  by (auto simp: step_def Let_def split: sum.splits prod.splits if_splits)

lemma step_invariant:
  assumes mv: "\<And>i rs m g rs' m' g'.
      P rs \<Longrightarrow> move_atom env p box i (rs, m, g) = Inr (rs', m', g') \<Longrightarrow> P rs'"
  shows "P (r st) \<Longrightarrow> step env p n box st = Inr st' \<Longrightarrow> P (r st')"
proof -
  assume a: "P (r st)" and b: "step env p n box st = Inr st'"
  from step_Inr[OF b] obtain moves where
    c: "sweep_atoms env p box [0..<n] (r st, 0, rng st) = Inr (r st', moves, rng st')" by blast
  show "P (r st')" by (rule sweep_atoms_invariant[where P = P, OF mv a c])
qed

lemma run_steps_invariant:
  assumes mv: "\<And>i rs m g rs' m' g'.
      P rs \<Longrightarrow> move_atom env p box i (rs, m, g) = Inr (rs', m', g') \<Longrightarrow> P rs'"
  shows "P (r st) \<Longrightarrow> run_steps env p n box k st = Inr st' \<Longrightarrow> P (r st')"
proof (induction k arbitrary: st)
  case 0
  then show ?case by simp
next
  case (Suc k)
  from Suc.prems(2) obtain st1 where
    a: "step env p n box st = Inr st1" and b: "run_steps env p n box k st1 = Inr st'"
    by (auto split: sum.splits)
  from step_invariant[where P = P, OF mv Suc.prems(1) a] have "P (r st1)" .
  from Suc.IH[OF this b] show ?case .
qed

lemma run_block_Inr:
  "run_block env p n box blk st = Inr st' \<Longrightarrow>
     \<exists>st1. run_steps env p n box (nat (nstep p)) (st\<lparr>trace := trace st @ [BlkBegin]\<rparr>) = Inr st1 \<and>
        r st' = r st1 \<and> rng st' = rng st1 \<and>
        trace st' = trace st1 @
          [BlkEnd blk, WriteCnfAtoms (cnf_prefix @ block_tag blk) n box (real_units box (r st1))]"
  by (auto simp: run_block_def Let_def split: sum.splits)

lemma run_block_invariant:
  assumes mv: "\<And>i rs m g rs' m' g'.
      P rs \<Longrightarrow> move_atom env p box i (rs, m, g) = Inr (rs', m', g') \<Longrightarrow> P rs'"
  shows "P (r st) \<Longrightarrow> run_block env p n box blk st = Inr st' \<Longrightarrow> P (r st')"
proof -
  assume a: "P (r st)" and b: "run_block env p n box blk st = Inr st'"
  from run_block_Inr[OF b] obtain st1 where
    c: "run_steps env p n box (nat (nstep p)) (st\<lparr>trace := trace st @ [BlkBegin]\<rparr>) = Inr st1"
    and d: "r st' = r st1" by blast
  from a have "P (r (st\<lparr>trace := trace st @ [BlkBegin]\<rparr>))" by simp
  from run_steps_invariant[where P = P, OF mv this c] d show "P (r st')" by simp
qed

lemma run_blocks_invariant:
  assumes mv: "\<And>i rs m g rs' m' g'.
      P rs \<Longrightarrow> move_atom env p box i (rs, m, g) = Inr (rs', m', g') \<Longrightarrow> P rs'"
  shows "P (r st) \<Longrightarrow> run_blocks env p n box blks st = Inr st' \<Longrightarrow> P (r st')"
proof (induction blks arbitrary: st)
  case Nil
  then show ?case by simp
next
  case (Cons blk blks)
  from Cons.prems(2) obtain st1 where
    a: "run_block env p n box blk st = Inr st1" and b: "run_blocks env p n box blks st1 = Inr st'"
    by (auto split: sum.splits)
  from run_block_invariant[where P = P, OF mv Cons.prems(1) a] have "P (r st1)" .
  from Cons.IH[OF this b] show ?case .
qed

lemma simulate_Finished:
  "simulate env p (n, box, r_inp) g0 tr = Finished st \<Longrightarrow>
     \<exists>vs ev st1 vs' ev'. box \<noteq> 0 \<and> \<not> overlap (hs_module_of env p) box (load_positions box r_inp) \<and>
       calculate env p n box (load_positions box r_inp) None (Some ''Initial values'') = Inr (vs, ev) \<and>
       run_blocks env p n box [1..nblock p]
          \<lparr>r = load_positions box r_inp, rng = g0,
           trace = tr @ [Introduction,
               PrintInt ''Number of blocks'' (nblock p),
               PrintInt ''Number of steps per block'' (nstep p),
               PrintReal ''Maximum displacement'' (dr_max p),
               PrintReal ''Pressure scaling parameter'' (eps_box p),
               PrintInt ''Number of particles'' (int n),
               PrintReal ''Box length'' box, PrintReal ''Density'' (real n / box ^ 3)] @ ev @ [RunBegin vs]\<rparr> = Inr st1 \<and>
       calculate env p n box (r st1) None (Some ''Final values'') = Inr (vs', ev') \<and>
       \<not> overlap (hs_module_of env p) box (r st1) \<and>
       st = st1\<lparr>trace := trace st1 @ [RunEnd] @ ev' @
              [WriteCnfAtoms (cnf_prefix @ out_tag) n box (real_units box (r st1)), Conclusion]\<rparr>"
  by (auto simp: simulate_def Let_def split: sum.splits prod.splits if_splits)

lemma simulate_invariant:
  assumes mv: "\<And>i rs m g rs' m' g'.
      P rs \<Longrightarrow> move_atom env p box i (rs, m, g) = Inr (rs', m', g') \<Longrightarrow> P rs'"
    and ld: "P (load_positions box r_inp)"
    and fin: "simulate env p (n, box, r_inp) g0 tr = Finished st"
  shows "P (r st)"
proof -
  from simulate_Finished[OF fin] obtain tr' st1 where
    a: "run_blocks env p n box [1..nblock p]
          \<lparr>r = load_positions box r_inp, rng = g0, trace = tr'\<rparr> = Inr st1"
    and b: "r st = r st1" by auto
  from ld have "P (r \<lparr>r = load_positions box r_inp, rng = g0, trace = tr'\<rparr>)" by simp
  from run_blocks_invariant[where P = P, OF mv this a] b show ?thesis by simp
qed

lemma move_atom_total:
  "box \<noteq> 0 \<Longrightarrow> i < length rs \<Longrightarrow>
     \<exists>rs' m' g'. move_atom env p box i (rs, m, g) = Inr (rs', m', g') \<and> length rs' = length rs"
  by (cases "random_translate_vector env (dr_max p / box) (rs ! i) g")
     (simp add: move_atom_def Let_def)

lemma sweep_atoms_total:
  "box \<noteq> 0 \<Longrightarrow> list_all (\<lambda>i. i < length rs) js \<Longrightarrow>
     \<exists>rs' m' g'. sweep_atoms env p box js (rs, m, g) = Inr (rs', m', g')"
proof (induction js arbitrary: rs m g)
  case Nil
  then show ?case by simp
next
  case (Cons i js)
  from Cons.prems obtain rs1 m1 g1 where
    a: "move_atom env p box i (rs, m, g) = Inr (rs1, m1, g1)" and l: "length rs1 = length rs"
    using move_atom_total[of box i rs env p m g] by auto
  from Cons.prems l have "list_all (\<lambda>i. i < length rs1) js" by simp
  from Cons.IH[OF Cons.prems(1) this, of m1 g1] a show ?case by simp
qed

text \<open>Equations for evaluating a sweep on a concrete array.\<close>

lemma np_delete_eval: "np_delete (x # xs) 0 = xs" "np_delete (x # xs) (Suc i) = x # np_delete xs i"
  by (simp_all add: np_delete_def)

lemma upt_eval: "[0..<0] = []" "[0..<Suc 0] = [0]" "[0..<2] = [0, Suc 0]"
  by (simp_all add: numeral_2_eq_2)

lemmas spec_env_simps =
  steady_env_def spec_collaborators_def spec_module_def hs_module_of_def default_params_def
  pair_overlaps_def squaredDistance_def minimumImageDelta_def wrap_def rint_def
  overlapsWithOne_def proposeMove_def steady_uniform3_def Let_def power2_eq_square
  power3_eq_cube

lemma upto_eval: "[1..2] = [1, 2]" "[1..1] = [1]" "[1..0] = []"
  by (simp_all add: upto.simps)

lemma block_tag_eval:
  "block_tag 1 = ''001''" "block_tag 2 = ''002''" "block_tag 42 = ''042''"
  "block_tag 999 = ''999''" "block_tag 1000 = ''sav''"
  by (simp_all add: block_tag_def zfill_def str_int_def str_nat.simps digit_char_def numeral_2_eq_2)

subsection \<open>The parameter check\<close>

lemma check_keys_pass:
  "list_all well_typed nml \<Longrightarrow> check_keys nml tr = Inr (tr @ map Warning (unknown_keys nml))"
  by (induction nml arbitrary: tr)
     (auto simp: well_typed_def unknown_keys_def split: option.splits)

lemma check_keys_fail:
  "\<not> list_all well_typed nml \<Longrightarrow>
     \<exists>key ws. check_keys nml tr = Inl (AssertionError (key @ '' has the wrong type''), tr @ map Warning ws)
        \<and> key \<in> set default_keys \<and> key \<in> fst ` set nml"
proof (induction nml arbitrary: tr)
  case Nil
  then show ?case by simp
next
  case (Cons kv nml)
  obtain key v where kv: "kv = (key, v)" by (cases kv)
  show ?case
  proof (cases "map_of defaults key")
    case None
    then have "well_typed (key, v)" by (simp add: well_typed_def)
    with Cons.prems kv have "\<not> list_all well_typed nml" by simp
    from Cons.IH[OF this, of "tr @ [Warning key]"] obtain k ws where
      "check_keys nml (tr @ [Warning key]) =
         Inl (AssertionError (k @ '' has the wrong type''), (tr @ [Warning key]) @ map Warning ws)"
      "k \<in> set default_keys" "k \<in> fst ` set nml" by blast
    with None kv show ?thesis
      by (intro exI[of _ k] exI[of _ "key # ws"]) simp
  next
    case (Some d)
    then have dk: "key \<in> set default_keys"
      by (auto simp: default_keys_def dest: map_of_SomeD intro: rev_image_eqI)
    show ?thesis
    proof (cases "type_of v = type_of d")
      case True
      with Some have "well_typed (key, v)" by (simp add: well_typed_def)
      with Cons.prems kv have "\<not> list_all well_typed nml" by simp
      from Cons.IH[OF this, of tr] True Some kv show ?thesis by auto
    next
      case False
      with Some kv dk show ?thesis
        by (intro exI[of _ key] exI[of _ "[]"]) simp
    qed
  qed
qed

lemma param_well_typed:
  assumes "list_all well_typed nml" "map_of defaults key = Some d"
  shows "\<exists>v. param nml key = Some v \<and> type_of v = type_of d \<and>
           (map_of nml key = None \<longrightarrow> v = d)"
proof (cases "map_of nml key")
  case None
  with assms show ?thesis by (simp add: param_def)
next
  case (Some v)
  then have "(key, v) \<in> set nml" by (rule map_of_SomeD)
  with assms have "type_of v = type_of d"
    by (auto simp: list_all_iff well_typed_def)
  with Some show ?thesis by (simp add: param_def)
qed

lemma type_of_cases:
  "type_of v = PyInt \<Longrightarrow> \<exists>k. v = JInt k"
  "type_of v = PyFloat \<Longrightarrow> \<exists>x. v = JFloat x"
  "type_of v = PyBool \<Longrightarrow> \<exists>b. v = JBool b"
  by (cases v; simp)+

lemma param_int:
  assumes "list_all well_typed nml" "map_of defaults key = Some (JInt x)"
  shows "\<exists>y. param nml key = Some (JInt y) \<and> (map_of nml key = None \<longrightarrow> y = x)"
proof -
  from param_well_typed[OF assms] obtain v where
    v: "param nml key = Some v" "type_of v = PyInt" "map_of nml key = None \<longrightarrow> v = JInt x"
    by auto
  from type_of_cases(1)[OF v(2)] obtain y where "v = JInt y" ..
  with v show ?thesis by auto
qed

lemma param_float:
  assumes "list_all well_typed nml" "map_of defaults key = Some (JFloat x)"
  shows "\<exists>y. param nml key = Some (JFloat y) \<and> (map_of nml key = None \<longrightarrow> y = x)"
proof -
  from param_well_typed[OF assms] obtain v where
    v: "param nml key = Some v" "type_of v = PyFloat" "map_of nml key = None \<longrightarrow> v = JFloat x"
    by auto
  from type_of_cases(2)[OF v(2)] obtain y where "v = JFloat y" ..
  with v show ?thesis by auto
qed

lemma param_bool:
  assumes "list_all well_typed nml" "map_of defaults key = Some (JBool x)"
  shows "\<exists>y. param nml key = Some (JBool y) \<and> (map_of nml key = None \<longrightarrow> y = x)"
proof -
  from param_well_typed[OF assms] obtain v where
    v: "param nml key = Some v" "type_of v = PyBool" "map_of nml key = None \<longrightarrow> v = JBool x"
    by auto
  from type_of_cases(3)[OF v(2)] obtain y where "v = JBool y" ..
  with v show ?thesis by auto
qed

lemma set_parameters_pass:
  assumes wt: "list_all well_typed nml"
  shows "\<exists>p. set_parameters nml = Inr p \<and>
     (map_of nml ''nblock'' = None \<longrightarrow> nblock p = 10) \<and>
     (map_of nml ''nstep'' = None \<longrightarrow> nstep p = 1000) \<and>
     (map_of nml ''dr_max'' = None \<longrightarrow> dr_max p = 15 / 100) \<and>
     (map_of nml ''eps_box'' = None \<longrightarrow> eps_box p = 5 / 1000) \<and>
     (map_of nml ''fast'' = None \<longrightarrow> fast p = True)"
proof -
  from param_int[OF wt, of "''nblock''" 10] obtain nb where
    a: "param nml ''nblock'' = Some (JInt nb)" "map_of nml ''nblock'' = None \<longrightarrow> nb = 10"
    by (auto simp: defaults_def)
  from param_int[OF wt, of "''nstep''" 1000] obtain ns where
    b: "param nml ''nstep'' = Some (JInt ns)" "map_of nml ''nstep'' = None \<longrightarrow> ns = 1000"
    by (auto simp: defaults_def)
  from param_float[OF wt, of "''dr_max''" "15 / 100"] obtain dr where
    c: "param nml ''dr_max'' = Some (JFloat dr)" "map_of nml ''dr_max'' = None \<longrightarrow> dr = 15 / 100"
    unfolding defaults_def by fastforce
  from param_float[OF wt, of "''eps_box''" "5 / 1000"] obtain eps where
    d: "param nml ''eps_box'' = Some (JFloat eps)" "map_of nml ''eps_box'' = None \<longrightarrow> eps = 5 / 1000"
    unfolding defaults_def by fastforce
  from param_bool[OF wt, of "''fast''" True] obtain f where
    e: "param nml ''fast'' = Some (JBool f)" "map_of nml ''fast'' = None \<longrightarrow> f = True"
    by (auto simp: defaults_def)
  from a b c d e show ?thesis by (simp add: set_parameters_def)
qed

subsection \<open>Which errors the loops raise\<close>

lemma calculate_error:
  "calculate env p n box rs m s = Inl e \<Longrightarrow> e \<noteq> AssertionError msg"
  by (auto simp: calculate_def Let_def split: if_splits option.splits)

lemma move_atom_error:
  "move_atom env p box i s = Inl e \<Longrightarrow> e \<noteq> AssertionError msg"
  by (cases s) (auto simp: move_atom_def Let_def split: if_splits prod.splits)

lemma sweep_atoms_error:
  "sweep_atoms env p box js s = Inl e \<Longrightarrow> e \<noteq> AssertionError msg"
  by (induction js arbitrary: s) (auto split: sum.splits dest: move_atom_error)

lemma step_error:
  "step env p n box st = Inl (e, tr) \<Longrightarrow> e \<noteq> AssertionError msg"
  by (auto simp: step_def Let_def split: sum.splits prod.splits if_splits
      dest: sweep_atoms_error calculate_error)

lemma run_steps_error:
  "run_steps env p n box k st = Inl (e, tr) \<Longrightarrow> e \<noteq> AssertionError msg"
  by (induction k arbitrary: st) (auto split: sum.splits dest: step_error)

lemma run_block_error:
  "run_block env p n box blk st = Inl (e, tr) \<Longrightarrow> e \<noteq> AssertionError msg"
  by (auto simp: run_block_def Let_def split: sum.splits dest: run_steps_error)

lemma run_blocks_error:
  "run_blocks env p n box blks st = Inl (e, tr) \<Longrightarrow> e \<noteq> AssertionError msg"
  by (induction blks arbitrary: st) (auto split: sum.splits dest: run_block_error)

lemma simulate_final_overlap:
  assumes "simulate env p (n, box, r_inp) g0 tr1 =
             Aborted (AssertionError ''Overlap in final configuration'') tr"
  shows "\<exists>st tr'. \<not> overlap (hs_module_of env p) box (load_positions box r_inp) \<and>
           run_blocks env p n box [1..nblock p]
             \<lparr>r = load_positions box r_inp, rng = g0, trace = tr'\<rparr> = Inr st \<and>
           overlap (hs_module_of env p) box (r st)"
  using assms
  by (auto simp: simulate_def Let_def split: sum.splits prod.splits if_splits
      dest: calculate_error run_blocks_error)

subsection \<open>Configuration files and their tags\<close>

lemma checkpoints_append: "checkpoints (es @ fs) = checkpoints es @ checkpoints fs"
  by (induction es rule: checkpoints.induct) simp_all

lemma calculate_checkpoints:
  "calculate env p n box rs m s = Inr (vs, ev) \<Longrightarrow> checkpoints ev = []"
  by (auto simp: calculate_def Let_def split: if_splits option.splits)

lemma step_checkpoints:
  "step env p n box st = Inr st' \<Longrightarrow> checkpoints (trace st') = checkpoints (trace st)"
  using step_Inr[of env p n box st st'] calculate_checkpoints
  by (fastforce simp: checkpoints_append)

lemma run_steps_checkpoints:
  "run_steps env p n box k st = Inr st' \<Longrightarrow> checkpoints (trace st') = checkpoints (trace st)"
proof (induction k arbitrary: st)
  case 0
  then show ?case by simp
next
  case (Suc k)
  from Suc.prems obtain st1 where
    a: "step env p n box st = Inr st1" and b: "run_steps env p n box k st1 = Inr st'"
    by (auto split: sum.splits)
  from Suc.IH[OF b] step_checkpoints[OF a] show ?case by simp
qed

lemma run_block_checkpoints:
  "run_block env p n box blk st = Inr st' \<Longrightarrow>
     checkpoints (trace st') = checkpoints (trace st) @ [cnf_prefix @ block_tag blk]"
proof -
  assume a: "run_block env p n box blk st = Inr st'"
  from run_block_Inr[OF a] obtain st1 where
    b: "run_steps env p n box (nat (nstep p)) (st\<lparr>trace := trace st @ [BlkBegin]\<rparr>) = Inr st1"
    and c: "trace st' = trace st1 @
          [BlkEnd blk, WriteCnfAtoms (cnf_prefix @ block_tag blk) n box (real_units box (r st1))]"
    by blast
  from run_steps_checkpoints[OF b] c show ?thesis by (simp add: checkpoints_append)
qed

lemma run_blocks_checkpoints:
  "run_blocks env p n box blks st = Inr st' \<Longrightarrow>
     checkpoints (trace st') =
       checkpoints (trace st) @ map (\<lambda>blk. cnf_prefix @ block_tag blk) blks"
proof (induction blks arbitrary: st)
  case Nil
  then show ?case by simp
next
  case (Cons blk blks)
  from Cons.prems obtain st1 where
    a: "run_block env p n box blk st = Inr st1" and b: "run_blocks env p n box blks st1 = Inr st'"
    by (auto split: sum.splits)
  from Cons.IH[OF b] run_block_checkpoints[OF a] show ?case by simp
qed

lemma str_nat_digits: "str_nat k \<noteq> [] \<and> set (str_nat k) \<subseteq> set ''0123456789''"
proof (induction k rule: str_nat.induct)
  case (1 k)
  have d: "digit_char j \<in> set ''0123456789''" if "j < 10" for j
    unfolding digit_char_def using that nth_mem[of j "''0123456789''"] by simp
  show ?case
  proof (cases "k < 10")
    case True
    with d[of k] show ?thesis by (subst str_nat.simps, subst (2) str_nat.simps) simp
  next
    case False
    with 1 d[of "k mod 10"] show ?thesis
      by (subst str_nat.simps, subst (2) str_nat.simps) auto
  qed
qed

lemma str_nat_length: "k < 1000 \<Longrightarrow> length (str_nat k) \<le> 3"
proof -
  assume k: "k < 1000"
  have one: "length (str_nat j) = 1" if "j < 10" for j
    using that by (subst str_nat.simps) simp
  have two: "length (str_nat j) \<le> 2" if "j < 100" for j
  proof (cases "j < 10")
    case True
    with one show ?thesis by simp
  next
    case False
    from that have "j div 10 < 10" by simp
    with one[of "j div 10"] False show ?thesis by (subst str_nat.simps) simp
  qed
  show ?thesis
  proof (cases "k < 10")
    case True
    with one show ?thesis by simp
  next
    case False
    from k have "k div 10 < 100" by simp
    with two[of "k div 10"] False show ?thesis by (subst str_nat.simps) simp
  qed
qed

lemma block_tag_padded:
  assumes "0 \<le> blk" "blk < 1000"
  shows "block_tag blk = replicate (3 - length (str_int blk)) CHR ''0'' @ str_int blk \<and>
         length (block_tag blk) = 3"
proof -
  from assms have s: "str_int blk = str_nat (nat blk)" by (simp add: str_int_def)
  from assms have "nat blk < 1000" by simp
  from str_nat_length[OF this] have l: "length (str_nat (nat blk)) \<le> 3" .
  from str_nat_digits[of "nat blk"] obtain c cs where
    cs: "str_nat (nat blk) = c # cs" and "c \<in> set ''0123456789''"
    by (cases "str_nat (nat blk)") auto
  then have "c \<noteq> CHR ''-'' \<and> c \<noteq> CHR ''+''" by auto
  with assms s cs l show ?thesis
    by (simp add: block_tag_def zfill_def)
qed

subsection \<open>The overlap routines of the specification\<close>

lemma hs_module_of_spec [simp]: "hs_module_of (spec_collaborators u) p = spec_module"
  by (simp add: hs_module_of_def spec_collaborators_def)

lemma squaredDistance_sym: "squaredDistance a b = squaredDistance b a"
proof -
  obtain a1 a2 a3 where a: "a = (a1, a2, a3)" by (cases a)
  obtain b1 b2 b3 where b: "b = (b1, b2, b3)" by (cases b)
  have d: "(y - x - rint (y - x))\<^sup>2 = (x - y - rint (x - y))\<^sup>2" for x y :: real
  proof -
    have "y - x - rint (y - x) = - (x - y - rint (x - y))"
      using rint_minus[of "x - y"] by simp
    then show ?thesis by (simp only: power2_minus)
  qed
  show ?thesis
    unfolding a b squaredDistance_def minimumImageDelta_def wrap_def
    by (simp add: d[of a1 b1] d[of a2 b2] d[of a3 b3])
qed

lemma pair_overlaps_sym: "pair_overlaps box a b = pair_overlaps box b a"
  by (simp add: pair_overlaps_def squaredDistance_sym)

lemma overlapsAny_iff:
  "overlapsAny box rs \<longleftrightarrow>
     (\<exists>i j. i < j \<and> j < length rs \<and> pair_overlaps box (rs ! i) (rs ! j))"
proof (induction rs)
  case Nil
  then show ?case by simp
next
  case (Cons a rs)
  show ?case
  proof
    assume "overlapsAny box (a # rs)"
    then consider "list_ex (pair_overlaps box a) rs" | "overlapsAny box rs" by auto
    then show "\<exists>i j. i < j \<and> j < length (a # rs) \<and> pair_overlaps box ((a # rs) ! i) ((a # rs) ! j)"
    proof cases
      case 1
      then obtain k where "k < length rs" "pair_overlaps box a (rs ! k)"
        by (auto simp: list_ex_iff in_set_conv_nth)
      then show ?thesis by (intro exI[of _ 0] exI[of _ "Suc k"]) simp
    next
      case 2
      with Cons.IH obtain i j where "i < j" "j < length rs" "pair_overlaps box (rs ! i) (rs ! j)"
        by blast
      then show ?thesis by (intro exI[of _ "Suc i"] exI[of _ "Suc j"]) simp
    qed
  next
    assume "\<exists>i j. i < j \<and> j < length (a # rs) \<and> pair_overlaps box ((a # rs) ! i) ((a # rs) ! j)"
    then obtain i j where ij: "i < j" "j < length (a # rs)"
      "pair_overlaps box ((a # rs) ! i) ((a # rs) ! j)" by blast
    from ij(1) obtain j' where j: "j = Suc j'" by (cases j) auto
    show "overlapsAny box (a # rs)"
    proof (cases i)
      case 0
      with ij j have "j' < length rs" "pair_overlaps box a (rs ! j')" by simp_all
      then have "list_ex (pair_overlaps box a) rs" by (auto simp: list_ex_iff)
      then show ?thesis by simp
    next
      case (Suc i')
      with ij j have "i' < j'" "j' < length rs" "pair_overlaps box (rs ! i') (rs ! j')" by simp_all
      with Cons.IH have "overlapsAny box rs" by blast
      then show ?thesis by simp
    qed
  qed
qed

lemma overlapsAny_pairs:
  "\<not> overlapsAny box rs \<longleftrightarrow>
     (\<forall>a b. a < length rs \<and> b < length rs \<and> a \<noteq> b \<longrightarrow> \<not> pair_overlaps box (rs ! a) (rs ! b))"
proof
  assume n: "\<not> overlapsAny box rs"
  show "\<forall>a b. a < length rs \<and> b < length rs \<and> a \<noteq> b \<longrightarrow> \<not> pair_overlaps box (rs ! a) (rs ! b)"
  proof (intro allI impI)
    fix a b assume ab: "a < length rs \<and> b < length rs \<and> a \<noteq> b"
    then consider "a < b" | "b < a" by linarith
    then show "\<not> pair_overlaps box (rs ! a) (rs ! b)"
    proof cases
      case 1
      with n ab show ?thesis unfolding overlapsAny_iff by blast
    next
      case 2
      with n ab have "\<not> pair_overlaps box (rs ! b) (rs ! a)" unfolding overlapsAny_iff by blast
      then show ?thesis by (simp add: pair_overlaps_sym)
    qed
  qed
next
  assume "\<forall>a b. a < length rs \<and> b < length rs \<and> a \<noteq> b \<longrightarrow> \<not> pair_overlaps box (rs ! a) (rs ! b)"
  then show "\<not> overlapsAny box rs" unfolding overlapsAny_iff by fastforce
qed

lemma nth_in_np_delete:
  "k < length rs \<Longrightarrow> k \<noteq> i \<Longrightarrow> rs ! k \<in> set (np_delete rs i)"
proof -
  assume k: "k < length rs" "k \<noteq> i"
  then consider "k < i" | "i < k" by linarith
  then show ?thesis
  proof cases
    case 1
    with k have "rs ! k \<in> set (take i rs)" by (auto simp: in_set_conv_nth intro!: exI[of _ k])
    then show ?thesis by (simp add: np_delete_def)
  next
    case 2
    then obtain d where d: "k = Suc i + d" by (metis less_iff_Suc_add add_Suc)
    with k have "rs ! k = drop (Suc i) rs ! d" "d < length (drop (Suc i) rs)" by simp_all
    then have "rs ! k \<in> set (drop (Suc i) rs)" by (metis nth_mem)
    then show ?thesis by (simp add: np_delete_def)
  qed
qed

lemma np_delete_subset: "set (np_delete rs i) \<subseteq> set rs"
  by (auto simp: np_delete_def dest: in_set_takeD in_set_dropD)

lemma update_keeps_no_overlap:
  assumes no: "\<not> overlapsAny box rs" and i: "i < length rs"
    and one: "\<not> overlapsWithOne ri box (np_delete rs i)"
  shows "\<not> overlapsAny box (rs[i := ri])"
  unfolding overlapsAny_pairs
proof (intro allI impI)
  fix a b
  assume ab: "a < length (rs[i := ri]) \<and> b < length (rs[i := ri]) \<and> a \<noteq> b"
  from one have o: "\<And>q. q \<in> set (np_delete rs i) \<Longrightarrow> \<not> pair_overlaps box ri q"
    by (auto simp: overlapsWithOne_def list_ex_iff)
  show "\<not> pair_overlaps box (rs[i := ri] ! a) (rs[i := ri] ! b)"
  proof (cases "a = i")
    case True
    with ab have "b \<noteq> i" "b < length rs" by simp_all
    from nth_in_np_delete[OF this(2) this(1)] o True ab i show ?thesis by simp
  next
    case False
    show ?thesis
    proof (cases "b = i")
      case True
      from ab False have "a < length rs" by simp
      from nth_in_np_delete[OF this False] o have "\<not> pair_overlaps box ri (rs ! a)" by blast
      with True False i show ?thesis by (simp add: pair_overlaps_sym)
    next
      case b: False
      from no ab False b show ?thesis unfolding overlapsAny_pairs by simp
    qed
  qed
qed

lemma move_atom_keeps_no_overlap:
  assumes "\<not> overlapsAny box rs"
    and "move_atom (spec_collaborators u) p box i (rs, m, g) = Inr (rs', m', g')"
  shows "\<not> overlapsAny box rs'"
proof (cases "random_translate_vector (spec_collaborators u) (dr_max p / box) (rs ! i) g")
  case (Pair ri0 g1)
  show ?thesis
  proof (cases "overlapsWithOne (wrap ri0) box (np_delete rs i)")
    case True
    with assms Pair show ?thesis
      by (auto simp: move_atom_def Let_def spec_module_def split: if_splits)
  next
    case False
    from assms(2) have i: "i < length rs" by (auto simp: move_atom_def split: if_splits)
    from update_keeps_no_overlap[OF assms(1) i False] assms(2) Pair False show ?thesis
      by (auto simp: move_atom_def Let_def spec_module_def split: if_splits)
  qed
qed

subsection \<open>Trial moves of length zero\<close>

lemma rint_small: "- (1 / 2) \<le> c \<Longrightarrow> c \<le> 1 / 2 \<Longrightarrow> rint c = 0"
proof -
  assume a: "- (1 / 2) \<le> c" "c \<le> 1 / 2"
  show ?thesis
  proof (cases "0 \<le> c")
    case True
    with a have "\<lfloor>c\<rfloor> = 0" by (simp add: floor_eq_iff)
    with a show ?thesis by (simp add: rint_def)
  next
    case False
    with a have "\<lfloor>c\<rfloor> = - 1" by (simp add: floor_eq_iff)
    with a False show ?thesis by (auto simp: rint_def Let_def)
  qed
qed

lemma wrap_in_cell: "in_cell_closed v \<Longrightarrow> wrap v = v"
  by (cases v) (simp add: in_cell_closed_def wrap_def rint_small del: divide_minus_left)

lemma proposeMove_zero: "proposeMove u v 0 g = (wrap v, snd (u g))"
  by (cases v; cases "u g"; cases "fst (u g)") (simp add: proposeMove_def)

lemma in_np_delete:
  "q \<in> set (np_delete rs i) \<Longrightarrow> \<exists>k. k < length rs \<and> k \<noteq> i \<and> q = rs ! k"
proof -
  assume "q \<in> set (np_delete rs i)"
  then consider "q \<in> set (take i rs)" | "q \<in> set (drop (Suc i) rs)"
    by (auto simp: np_delete_def)
  then show ?thesis
  proof cases
    case 1
    then obtain k where "k < length (take i rs)" "take i rs ! k = q"
      by (auto simp: in_set_conv_nth)
    then show ?thesis by (intro exI[of _ k]) auto
  next
    case 2
    then obtain d where "d < length (drop (Suc i) rs)" "drop (Suc i) rs ! d = q"
      by (auto simp: in_set_conv_nth)
    then show ?thesis by (intro exI[of _ "Suc i + d"]) auto
  qed
qed

lemma null_move_accepted:
  assumes dr: "dr_max p = 0" and b: "box \<noteq> 0" and i: "i < length rs"
    and cell: "list_all in_cell_closed rs" and no: "\<not> overlapsAny box rs"
  shows "move_atom (spec_collaborators u) p box i (rs, m, g) = Inr (rs, Suc m, snd (u g))"
proof -
  from cell i have w: "wrap (rs ! i) = rs ! i"
    by (simp add: list_all_length wrap_in_cell)
  have "\<not> overlapsWithOne (rs ! i) box (np_delete rs i)"
  proof
    assume "overlapsWithOne (rs ! i) box (np_delete rs i)"
    then obtain q where "q \<in> set (np_delete rs i)" "pair_overlaps box (rs ! i) q"
      by (auto simp: overlapsWithOne_def list_ex_iff)
    with in_np_delete[of q rs i] obtain k where
      "k < length rs" "k \<noteq> i" "pair_overlaps box (rs ! i) (rs ! k)" by blast
    with no i show False unfolding overlapsAny_pairs by blast
  qed
  with dr b i w show ?thesis
    by (simp add: move_atom_def spec_collaborators_def hs_module_of_def spec_module_def
        proposeMove_zero)
qed

lemma null_sweep:
  assumes dr: "dr_max p = 0" and b: "box \<noteq> 0"
    and cell: "list_all in_cell_closed rs" and no: "\<not> overlapsAny box rs"
  shows "list_all (\<lambda>i. i < length rs) js \<Longrightarrow>
    \<exists>g'. sweep_atoms (spec_collaborators u) p box js (rs, m, g) = Inr (rs, m + length js, g')"
proof (induction js arbitrary: m g)
  case Nil
  then show ?case by simp
next
  case (Cons i js)
  then have i: "i < length rs" and js: "list_all (\<lambda>i. i < length rs) js" by simp_all
  from Cons.IH[OF js, of "Suc m" "snd (u g)"] null_move_accepted[OF dr b i cell no, of u m g]
  show ?case by simp
qed

lemma countOverlaps_zero: "\<not> overlapsAny box rs \<Longrightarrow> countOverlaps box rs = 0"
  by (induction rs) (auto simp: list_ex_iff filter_empty_conv)

lemma null_step:
  assumes dr: "dr_max p = 0" and e: "eps_box p \<noteq> 0" "eps_box p \<noteq> - 1" and b: "box \<noteq> 0"
    and n: "0 < length (r st)"
    and cell: "list_all in_cell_closed (r st)" and no: "\<not> overlapsAny box (r st)"
  shows "\<exists>g'. step (spec_collaborators u) p (length (r st)) box st =
     Inr \<lparr>r = r st, rng = g',
          trace = trace st @
            [BlkAdd [\<lparr>nam = ''Move ratio'', val = 1\<rparr>,
                     \<lparr>nam = ''P'',
                        val = real (length (r st)) / box ^ 3 +
                          real_of_int (countOverlaps (box / (1 + eps_box p)) (r st))
                            / (3 * eps_box p) / box ^ 3\<rparr>]]\<rparr>"
proof -
  have "list_all (\<lambda>i. i < length (r st)) [0..<length (r st)]" by (simp add: list_all_iff)
  from null_sweep[OF dr b cell no this, of u 0 "rng st"] obtain g' where
    "sweep_atoms (spec_collaborators u) p box [0..<length (r st)] (r st, 0, rng st) =
       Inr (r st, length (r st), g')" by auto
  with e b n show ?thesis
    by (intro exI[of _ g']) (simp add: step_def calculate_def Let_def spec_module_def)
qed

lemma null_steps:
  assumes dr: "dr_max p = 0" and e: "eps_box p \<noteq> 0" "eps_box p \<noteq> - 1" and b: "box \<noteq> 0"
  shows "0 < length (r st) \<Longrightarrow> list_all in_cell_closed (r st) \<Longrightarrow> \<not> overlapsAny box (r st) \<Longrightarrow>
    \<exists>st'. run_steps (spec_collaborators u) p (length (r st)) box k st = Inr st' \<and> r st' = r st \<and>
      trace st' = trace st @ replicate k
            (BlkAdd [\<lparr>nam = ''Move ratio'', val = 1\<rparr>,
                     \<lparr>nam = ''P'',
                        val = real (length (r st)) / box ^ 3 +
                          real_of_int (countOverlaps (box / (1 + eps_box p)) (r st))
                            / (3 * eps_box p) / box ^ 3\<rparr>])"
proof (induction k arbitrary: st)
  case 0
  then show ?case by simp
next
  case (Suc k)
  from null_step[OF dr e b Suc.prems, of u] obtain g' where
    s: "step (spec_collaborators u) p (length (r st)) box st =
     Inr \<lparr>r = r st, rng = g',
          trace = trace st @
            [BlkAdd [\<lparr>nam = ''Move ratio'', val = 1\<rparr>,
                     \<lparr>nam = ''P'',
                        val = real (length (r st)) / box ^ 3 +
                          real_of_int (countOverlaps (box / (1 + eps_box p)) (r st))
                            / (3 * eps_box p) / box ^ 3\<rparr>]]\<rparr>" (is "_ = Inr ?st1") by blast
  from Suc.prems have "0 < length (r ?st1)" "list_all in_cell_closed (r ?st1)"
    "\<not> overlapsAny box (r ?st1)" by simp_all
  from Suc.IH[OF this] s show ?case
    by (auto simp: replicate_app_Cons_same)
qed

subsection \<open>The observables\<close>

text \<open>
  Claim C1. Whenever \<open>calculate\<close> returns, its second variable is named \<open>P\<close> and its value
  is \<open>n/box\<^sup>3 + vir/box\<^sup>3\<close>, where \<open>vir\<close> is the overlap count that \<open>n_overlap\<close> gives for
  the current positions and the box \<open>box/(1+eps_box)\<close>, divided by \<open>3*eps_box\<close>; with a
  label, this is the value written out. The call returns unless a divisor is zero
  (\<open>eps_box\<close> is \<open>-1\<close> or \<open>0\<close>, or \<open>box\<close> is \<open>0\<close>) or \<open>m_ratio\<close> is read before it is assigned.
  In every step that returns, the pressure handed to the averaging collaborator is this
  value for the positions after the sweep.
\<close>

theorem calculate_pressure:
  "(calculate env p n box rs m_ratio string = Inr (variables, ev) \<longrightarrow>
      length variables = 2 \<and> nam (variables ! 1) = ''P'' \<and>
      val (variables ! 1) =
        real n / box ^ 3 +
        (real_of_int (n_overlap (hs_module_of env p) (box / (1 + eps_box p)) rs)
           / (3 * eps_box p)) / box ^ 3 \<and>
      (string \<noteq> None \<longrightarrow> ev = [Print (the string), WriteVariables [variables ! 1]])) \<and>
   (eps_box p \<noteq> - 1 \<and> eps_box p \<noteq> 0 \<and> box \<noteq> 0 \<and> (string = None \<longrightarrow> m_ratio \<noteq> None) \<longrightarrow>
      (\<exists>vs ev'. calculate env p n box rs m_ratio string = Inr (vs, ev'))) \<and>
   (step env p n box st = Inr st' \<longrightarrow>
      (\<exists>vs. trace st' = trace st @ [BlkAdd vs] \<and> nam (vs ! 1) = ''P'' \<and>
         val (vs ! 1) =
           real n / box ^ 3 +
           (real_of_int (n_overlap (hs_module_of env p) (box / (1 + eps_box p)) (r st'))
              / (3 * eps_box p)) / box ^ 3))"
proof -
  have A: "calculate env p n box rs m_ratio string = Inr (variables, ev) \<longrightarrow>
      length variables = 2 \<and> nam (variables ! 1) = ''P'' \<and>
      val (variables ! 1) =
        real n / box ^ 3 +
        (real_of_int (n_overlap (hs_module_of env p) (box / (1 + eps_box p)) rs)
           / (3 * eps_box p)) / box ^ 3 \<and>
      (string \<noteq> None \<longrightarrow> ev = [Print (the string), WriteVariables [variables ! 1]])"
    by (auto simp: calculate_def Let_def split: option.splits if_splits)
  have B: "eps_box p \<noteq> - 1 \<and> eps_box p \<noteq> 0 \<and> box \<noteq> 0 \<and> (string = None \<longrightarrow> m_ratio \<noteq> None) \<longrightarrow>
      (\<exists>vs ev'. calculate env p n box rs m_ratio string = Inr (vs, ev'))"
    by (auto simp: calculate_def Let_def split: option.splits if_splits)
  have C: "step env p n box st = Inr st' \<longrightarrow>
      (\<exists>vs. trace st' = trace st @ [BlkAdd vs] \<and> nam (vs ! 1) = ''P'' \<and>
         val (vs ! 1) =
           real n / box ^ 3 +
           (real_of_int (n_overlap (hs_module_of env p) (box / (1 + eps_box p)) (r st'))
              / (3 * eps_box p)) / box ^ 3)"
  proof
    assume "step env p n box st = Inr st'"
    from step_Inr[OF this] obtain moves vs ev where
      c: "calculate env p n box (r st') (Some (real moves / real n)) None = Inr (vs, ev)" and
      t: "trace st' = trace st @ ev @ [BlkAdd vs]" by blast
    from c have "ev = [] \<and> nam (vs ! 1) = ''P'' \<and>
        val (vs ! 1) =
          real n / box ^ 3 +
          (real_of_int (n_overlap (hs_module_of env p) (box / (1 + eps_box p)) (r st'))
             / (3 * eps_box p)) / box ^ 3"
      by (auto simp: calculate_def Let_def split: if_splits)
    with t show "\<exists>vs. trace st' = trace st @ [BlkAdd vs] \<and> nam (vs ! 1) = ''P'' \<and>
           val (vs ! 1) =
             real n / box ^ 3 +
             (real_of_int (n_overlap (hs_module_of env p) (box / (1 + eps_box p)) (r st'))
                / (3 * eps_box p)) / box ^ 3"
      by (intro exI[of _ vs]) simp
  qed
  from A B C show ?thesis by (intro conjI)
qed

theorem calculate_pressure_witness:
  "eps_box default_params \<noteq> - 1 \<and> eps_box default_params \<noteq> 0 \<and> (10::real) \<noteq> 0 \<and>
   calculate steady_env default_params 2 10 [(0, 0, 0), (1 / 2, 1 / 2, 1 / 2)] None
       (Some ''Initial values'') =
     Inr ([\<lparr>nam = ''Move ratio'', val = 0\<rparr>, \<lparr>nam = ''P'', val = 1 / 500\<rparr>],
          [Print ''Initial values'', WriteVariables [\<lparr>nam = ''P'', val = 1 / 500\<rparr>]]) \<and>
   step steady_env default_params 2 10
       \<lparr>r = [(0, 0, 0), (1 / 2, 1 / 2, 1 / 2)], rng = 0, trace = []\<rparr> =
     Inr \<lparr>r = [(3 / 400, 0, 0), (- 197 / 400, 1 / 2, 1 / 2)], rng = 2,
          trace = [BlkAdd [\<lparr>nam = ''Move ratio'', val = 1\<rparr>, \<lparr>nam = ''P'', val = 1 / 500\<rparr>]]\<rparr>"
  using calculate_pressure [where env = steady_env and p = default_params and n = 2 and box = 10
      and rs = "[(0, 0, 0), (1 / 2, 1 / 2, 1 / 2)]" and m_ratio = None
      and string = "Some ''Initial values''"
      and st = "\<lparr>r = [(0, 0, 0), (1 / 2, 1 / 2, 1 / 2)], rng = 0, trace = []\<rparr>"
      and st' = "\<lparr>r = [(3 / 400, 0, 0), (- 197 / 400, 1 / 2, 1 / 2)], rng = 2,
          trace = [BlkAdd [\<lparr>nam = ''Move ratio'', val = 1\<rparr>, \<lparr>nam = ''P'', val = 1 / 500\<rparr>]]\<rparr>"]
  by (simp add: calculate_def step_def upt_eval move_atom_def np_delete_eval spec_env_simps)

text \<open>
  Claim C10, as stated: with \<open>eps_box > 0\<close> and a nonnegative overlap count the reported
  pressure is at least \<open>n/box\<^sup>3\<close>. The program does not check the sign of the box length
  that it reads. With \<open>box = -2\<close> and two spheres at distance 1, the contracted box counts
  one overlap, the volume \<open>box\<^sup>3\<close> is negative and the pressure \<open>-103/12\<close> lies below
  \<open>n/box\<^sup>3 = -1/4\<close>.
\<close>

theorem pressure_below_ideal_gas_negative_box:
  "0 < eps_box default_params \<and>
   n_overlap (hs_module_of steady_env default_params) (- 2 / (1 + eps_box default_params))
       [(0, 0, 0), (- 1 / 2, 0, 0)] = 1 \<and>
   calculate steady_env default_params 2 (- 2) [(0, 0, 0), (- 1 / 2, 0, 0)] None
       (Some ''Initial values'') =
     Inr ([\<lparr>nam = ''Move ratio'', val = 0\<rparr>, \<lparr>nam = ''P'', val = - (103 / 12)\<rparr>],
          [Print ''Initial values'', WriteVariables [\<lparr>nam = ''P'', val = - (103 / 12)\<rparr>]]) \<and>
   - (103 / 12) < real 2 / (- 2) ^ 3"
  by (simp add: calculate_def spec_env_simps)

text \<open>
  Claim C10, amended: for every call of \<open>calculate\<close> with \<open>eps_box > 0\<close>, a positive box
  length and a nonnegative overlap count from \<open>n_overlap\<close>, the reported pressure is at
  least the ideal-gas term \<open>n/box\<^sup>3\<close>; and the call returns (unless it reads \<open>m_ratio\<close>
  before the first step has assigned it).
\<close>

theorem pressure_lower_bound:
  "0 < eps_box p \<Longrightarrow> 0 < box \<Longrightarrow>
   0 \<le> n_overlap (hs_module_of env p) (box / (1 + eps_box p)) rs \<Longrightarrow>
   (calculate env p n box rs m_ratio string = Inr (variables, ev) \<longrightarrow>
      nam (variables ! 1) = ''P'' \<and> real n / box ^ 3 \<le> val (variables ! 1)) \<and>
   ((string = None \<longrightarrow> m_ratio \<noteq> None) \<longrightarrow>
      (\<exists>vs ev'. calculate env p n box rs m_ratio string = Inr (vs, ev')))"
  by (auto simp: calculate_def Let_def split: option.splits)

theorem pressure_lower_bound_witness:
  "0 < eps_box default_params \<and> (0::real) < 10 \<and>
   0 \<le> n_overlap (hs_module_of steady_env default_params) (10 / (1 + eps_box default_params))
          [(0, 0, 0), (1001 / 10000, 0, 0)] \<and>
   calculate steady_env default_params 2 10 [(0, 0, 0), (1001 / 10000, 0, 0)] (Some 1) None =
     Inr ([\<lparr>nam = ''Move ratio'', val = 1\<rparr>, \<lparr>nam = ''P'', val = 1 / 500 + 1 / 15\<rparr>], []) \<and>
   real 2 / 10 ^ 3 \<le> (1 / 500 + 1 / 15 :: real)"
  using pressure_lower_bound [of default_params 10 steady_env "[(0, 0, 0), (1001 / 10000, 0, 0)]"
      2 "Some 1" None]
  by (simp add: calculate_def spec_env_simps)

subsection \<open>The sweep\<close>

text \<open>
  Claim C2. A sweep processes the particles \<open>0, ..., n-1\<close> in this order, each by one trial
  move. For particle \<open>i\<close> with trial position \<open>ri0\<close> from \<open>random_translate_vector\<close>: if
  \<open>overlap_1\<close> reports no overlap of the wrapped trial position against all other
  particles (the rows \<open>k \<noteq> i\<close> of the array), then \<open>r[i]\<close> is replaced by it and the
  counter grows by 1; if it reports an overlap, the array and the counter are as before.
  A step that returns has run this sweep from the counter 0.
\<close>

theorem trial_move_effect:
  "box \<noteq> 0 \<Longrightarrow> i < length rs \<Longrightarrow>
   random_translate_vector env (dr_max p / box) (rs ! i) g = (ri0, g') \<Longrightarrow>
   (\<not> overlap_1 (hs_module_of env p) (wrap ri0) box (np_delete rs i) \<longrightarrow>
      move_atom env p box i (rs, moves, g) = Inr (rs[i := wrap ri0], moves + 1, g')) \<and>
   (overlap_1 (hs_module_of env p) (wrap ri0) box (np_delete rs i) \<longrightarrow>
      move_atom env p box i (rs, moves, g) = Inr (rs, moves, g')) \<and>
   (\<forall>q. q \<in> set (np_delete rs i) \<longleftrightarrow> (\<exists>k. k < length rs \<and> k \<noteq> i \<and> q = rs ! k)) \<and>
   sweep_atoms env p box [0..<0] s = Inr s \<and>
   sweep_atoms env p box [0..<Suc k] s =
     (case sweep_atoms env p box [0..<k] s of
        Inl e \<Rightarrow> Inl e
      | Inr s' \<Rightarrow> move_atom env p box k s') \<and>
   (step env p n box st = Inr st' \<longrightarrow>
      (\<exists>accepted. sweep_atoms env p box [0..<n] (r st, 0, rng st) = Inr (r st', accepted, rng st')))"
proof -
  have "sweep_atoms env p box [0..<Suc k] s =
     (case sweep_atoms env p box [0..<k] s of
        Inl e \<Rightarrow> Inl e
      | Inr s' \<Rightarrow> move_atom env p box k s')"
    by (simp add: sweep_atoms_append split: sum.splits)
  moreover have "step env p n box st = Inr st' \<longrightarrow>
      (\<exists>accepted. sweep_atoms env p box [0..<n] (r st, 0, rng st) = Inr (r st', accepted, rng st'))"
    using step_Inr[of env p n box st st'] by blast
  moreover assume "box \<noteq> 0" "i < length rs"
     "random_translate_vector env (dr_max p / box) (rs ! i) g = (ri0, g')"
  moreover have "\<forall>q. q \<in> set (np_delete rs i) \<longleftrightarrow> (\<exists>k. k < length rs \<and> k \<noteq> i \<and> q = rs ! k)"
    using in_np_delete[of _ rs i] nth_in_np_delete[of _ rs i] by blast
  ultimately show ?thesis
    by (simp add: move_atom_def Let_def)
qed

theorem trial_move_effect_witness:
  "(10::real) \<noteq> 0 \<and> (1::nat) < length [(0, 0, 0), (1 / 2, 1 / 2, 1 / 2) :: vec] \<and>
   \<not> overlap_1 (hs_module_of steady_env default_params) (wrap (- 197 / 400, 1 / 2, 1 / 2)) 10
       (np_delete [(0, 0, 0), (1 / 2, 1 / 2, 1 / 2)] 1) \<and>
   move_atom steady_env default_params 10 1 ([(0, 0, 0), (1 / 2, 1 / 2, 1 / 2)], 0, 7) =
     Inr ([(0, 0, 0), (- 197 / 400, 1 / 2, 1 / 2)], 1, 8) \<and>
   overlap_1 (hs_module_of steady_env default_params) (wrap (43 / 400, 0, 0)) 10
       (np_delete [(1 / 10, 0, 0), (1 / 5, 0, 0)] 0) \<and>
   move_atom steady_env default_params 10 0 ([(1 / 10, 0, 0), (1 / 5, 0, 0)], 0, 7) =
     Inr ([(1 / 10, 0, 0), (1 / 5, 0, 0)], 0, 8)"
  using trial_move_effect [of 10 1 "[(0, 0, 0), (1 / 2, 1 / 2, 1 / 2)]" steady_env default_params 7
      "(- 197 / 400, 1 / 2, 1 / 2)" 8 0]
    trial_move_effect [of 10 0 "[(1 / 10, 0, 0), (1 / 5, 0, 0)]" steady_env default_params 7
      "(43 / 400, 0, 0)" 8 0]
  by (simp add: spec_env_simps np_delete_eval move_atom_def)

text \<open>
  Claim C9. In every step that returns, the move ratio handed to the averaging
  collaborator is the number of accepted moves of that sweep divided by \<open>n\<close>, and lies
  between 0 and 1; the step returns when \<open>n\<close> is positive and no index or divisor is out
  of range. When \<open>calculate\<close> is called with a label, the move ratio it returns is 0.
\<close>

theorem move_ratio_in_unit_interval:
  "(step env p n box st = Inr st' \<longrightarrow>
      (\<exists>accepted vs.
          sweep_atoms env p box [0..<n] (r st, 0, rng st) = Inr (r st', accepted, rng st') \<and>
          accepted \<le> n \<and> trace st' = trace st @ [BlkAdd vs] \<and>
          nam (vs ! 0) = ''Move ratio'' \<and> val (vs ! 0) = real accepted / real n \<and>
          0 \<le> val (vs ! 0) \<and> val (vs ! 0) \<le> 1)) \<and>
   (0 < n \<and> n \<le> length (r st) \<and> box \<noteq> 0 \<and> eps_box p \<noteq> 0 \<and> eps_box p \<noteq> - 1 \<longrightarrow>
      (\<exists>st'. step env p n box st = Inr st')) \<and>
   (calculate env p n box rs m_ratio (Some label) = Inr (vs', ev) \<longrightarrow>
      nam (vs' ! 0) = ''Move ratio'' \<and> val (vs' ! 0) = 0)"
proof (intro conjI impI)
  assume a: "step env p n box st = Inr st'"
  from step_Inr[OF a] obtain moves vs ev where
    s: "sweep_atoms env p box [0..<n] (r st, 0, rng st) = Inr (r st', moves, rng st')" and
    n: "0 < n" and
    c: "calculate env p n box (r st') (Some (real moves / real n)) None = Inr (vs, ev)" and
    t: "trace st' = trace st @ ev @ [BlkAdd vs]" by blast
  from sweep_atoms_moves[OF s] have le: "moves \<le> n" by simp
  from c have v: "ev = [] \<and> nam (vs ! 0) = ''Move ratio'' \<and> val (vs ! 0) = real moves / real n"
    by (auto simp: calculate_def Let_def split: if_splits)
  from le n have "0 \<le> real moves / real n \<and> real moves / real n \<le> 1" by simp
  with s le t v show "\<exists>accepted vs.
          sweep_atoms env p box [0..<n] (r st, 0, rng st) = Inr (r st', accepted, rng st') \<and>
          accepted \<le> n \<and> trace st' = trace st @ [BlkAdd vs] \<and>
          nam (vs ! 0) = ''Move ratio'' \<and> val (vs ! 0) = real accepted / real n \<and>
          0 \<le> val (vs ! 0) \<and> val (vs ! 0) \<le> 1"
    by auto
next
  assume a: "0 < n \<and> n \<le> length (r st) \<and> box \<noteq> 0 \<and> eps_box p \<noteq> 0 \<and> eps_box p \<noteq> - 1"
  then have "list_all (\<lambda>i. i < length (r st)) [0..<n]" by (simp add: list_all_iff)
  with a sweep_atoms_total[of box "r st" "[0..<n]" env p 0 "rng st"] obtain rs' m' g' where
    s: "sweep_atoms env p box [0..<n] (r st, 0, rng st) = Inr (rs', m', g')" by blast
  from a have "\<exists>vs ev. calculate env p n box rs' (Some (real m' / real n)) None = Inr (vs, ev)"
    by (auto simp: calculate_def Let_def)
  with s a show "\<exists>st'. step env p n box st = Inr st'"
    by (auto simp: step_def Let_def)
next
  assume "calculate env p n box rs m_ratio (Some label) = Inr (vs', ev)"
  then show "nam (vs' ! 0) = ''Move ratio''" "val (vs' ! 0) = 0"
    by (auto simp: calculate_def Let_def split: if_splits)
qed

theorem move_ratio_in_unit_interval_witness:
  "step steady_env default_params 2 10
       \<lparr>r = [(0, 0, 0), (1 / 2, 1 / 2, 1 / 2)], rng = 0, trace = []\<rparr> =
     Inr \<lparr>r = [(3 / 400, 0, 0), (- 197 / 400, 1 / 2, 1 / 2)], rng = 2,
          trace = [BlkAdd [\<lparr>nam = ''Move ratio'', val = 1\<rparr>, \<lparr>nam = ''P'', val = 1 / 500\<rparr>]]\<rparr> \<and>
   (0::nat) < 2 \<and> 2 \<le> length [(0, 0, 0), (1 / 2, 1 / 2, 1 / 2) :: vec] \<and> (10::real) \<noteq> 0 \<and>
   eps_box default_params \<noteq> 0 \<and> eps_box default_params \<noteq> - 1 \<and>
   calculate steady_env default_params 2 10 [(0, 0, 0), (1 / 2, 1 / 2, 1 / 2)] (Some 1)
       (Some ''Final values'') =
     Inr ([\<lparr>nam = ''Move ratio'', val = 0\<rparr>, \<lparr>nam = ''P'', val = 1 / 500\<rparr>],
          [Print ''Final values'', WriteVariables [\<lparr>nam = ''P'', val = 1 / 500\<rparr>]])"
  using move_ratio_in_unit_interval [of steady_env default_params 2 10
      "\<lparr>r = [(0, 0, 0), (1 / 2, 1 / 2, 1 / 2)], rng = 0, trace = []\<rparr>"
      "\<lparr>r = [(3 / 400, 0, 0), (- 197 / 400, 1 / 2, 1 / 2)], rng = 2,
          trace = [BlkAdd [\<lparr>nam = ''Move ratio'', val = 1\<rparr>, \<lparr>nam = ''P'', val = 1 / 500\<rparr>]]\<rparr>"
      "[(0, 0, 0), (1 / 2, 1 / 2, 1 / 2)]" "Some 1" "''Final values''"
      "[\<lparr>nam = ''Move ratio'', val = 0\<rparr>, \<lparr>nam = ''P'', val = 1 / 500\<rparr>]"
      "[Print ''Final values'', WriteVariables [\<lparr>nam = ''P'', val = 1 / 500\<rparr>]]"]
  by (simp add: step_def upt_eval move_atom_def np_delete_eval calculate_def spec_env_simps)

subsection \<open>A whole run on two spheres\<close>

text \<open>
  The run of \<open>short_params\<close> on two spheres at \<open>(0,0,0)\<close> and \<open>(5,5,5)\<close> in a box of length
  10, evaluated.
\<close>

lemma short_run:
  "simulate steady_env short_params (2, 10, [(0, 0, 0), (5, 5, 5)]) 0 banner =
     Finished \<lparr>r = [(3 / 200, 0, 0), (- (97 / 200), 1 / 2, 1 / 2)], rng = 4,
               trace = short_run_trace\<rparr>"
  by (simp add: simulate_def load_positions_def run_block_def step_def upt_eval upto_eval
      move_atom_def np_delete_eval calculate_def spec_env_simps short_params_def
      block_tag_eval banner_def short_run_trace_def real_units_def cnf_prefix_def out_tag_def)

subsection \<open>Stored coordinates\<close>

lemma load_positions_in_cell: "list_all in_cell_closed (load_positions box r_inp)"
  by (simp add: load_positions_def list_all_iff wrap_in_cell_closed)

lemma move_atom_in_cell:
  assumes "list_all in_cell_closed rs"
    and "move_atom env p box i (rs, moves, g) = Inr (rs', moves', g')"
  shows "list_all in_cell_closed rs'"
proof (cases "random_translate_vector env (dr_max p / box) (rs ! i) g")
  case (Pair ri0 g1)
  have "list_all in_cell_closed (rs[i := wrap ri0])"
    using assms(1) wrap_in_cell_closed[of ri0]
    by (auto simp: list_all_iff dest!: set_update_subset_insert[THEN subsetD])
  with assms Pair show ?thesis
    by (auto simp: move_atom_def Let_def split: if_splits)
qed

text \<open>
  Claim C6, as stated: every stored coordinate lies in the half-open interval from
  \<open>-0.5\<close> to \<open>0.5\<close>. \<open>np.rint\<close> rounds \<open>0.5\<close> to the even integer 0, so the wrap leaves the
  coordinate \<open>0.5\<close> as it is: a particle read at \<open>x = 5\<close> in a box of length 10 is stored
  with \<open>x = 1/2\<close>, and an accepted trial move from \<open>197/400\<close> by \<open>3/400\<close> stores \<open>1/2\<close>.
\<close>

theorem stored_coordinate_one_half:
  "load_positions 10 [(5, 0, 0)] = [(1 / 2, 0, 0)] \<and>
   move_atom steady_env default_params 10 0 ([(197 / 400, 0, 0)], 0, 0) = Inr ([(1 / 2, 0, 0)], 1, 1) \<and>
   \<not> in_cell_half_open (1 / 2, 0, 0)"
  by (simp add: load_positions_def move_atom_def np_delete_eval in_cell_half_open_def spec_env_simps)

text \<open>
  Claim C6, amended: every coordinate of every stored particle position lies in the
  closed interval from \<open>-0.5\<close> to \<open>0.5\<close>: after the initial load, after every trial move
  (given that it held before), and at the end of every run that finishes.
\<close>

theorem stored_coordinates_in_closed_cell:
  "list_all in_cell_closed (load_positions box r_inp) \<and>
   (list_all in_cell_closed rs \<and> move_atom env p box i (rs, moves, g) = Inr (rs', moves', g')
      \<longrightarrow> list_all in_cell_closed rs') \<and>
   (simulate env p (n, box, r_inp) g0 tr = Finished st \<longrightarrow> list_all in_cell_closed (r st))"
proof (intro conjI impI)
  show "list_all in_cell_closed (load_positions box r_inp)" by (rule load_positions_in_cell)
next
  assume "list_all in_cell_closed rs \<and> move_atom env p box i (rs, moves, g) = Inr (rs', moves', g')"
  then have a: "list_all in_cell_closed rs"
    and b: "move_atom env p box i (rs, moves, g) = Inr (rs', moves', g')" by simp_all
  show "list_all in_cell_closed rs'" by (rule move_atom_in_cell[OF a b])
next
  assume "simulate env p (n, box, r_inp) g0 tr = Finished st"
  then show "list_all in_cell_closed (r st)"
    by (rule simulate_invariant[where P = "list_all in_cell_closed", rotated 2])
       (erule (1) move_atom_in_cell, rule load_positions_in_cell)
qed

theorem stored_coordinates_in_closed_cell_witness:
  "list_all in_cell_closed (load_positions 10 [(0, 0, 0), (5, 5, 5)]) \<and>
   list_all in_cell_closed [(197 / 400, 0, 0)] \<and>
   move_atom steady_env short_params 10 0 ([(197 / 400, 0, 0)], 0, 0) =
     Inr ([(1 / 2, 0, 0)], 1, 1) \<and>
   list_all in_cell_closed [(1 / 2, 0, 0)] \<and>
   simulate steady_env short_params (2, 10, [(0, 0, 0), (5, 5, 5)]) 0 banner =
     Finished \<lparr>r = [(3 / 200, 0, 0), (- (97 / 200), 1 / 2, 1 / 2)], rng = 4,
               trace = short_run_trace\<rparr> \<and>
   list_all in_cell_closed [(3 / 200, 0, 0), (- (97 / 200), 1 / 2, 1 / 2)]"
  using stored_coordinates_in_closed_cell [where box = 10 and r_inp = "[(0, 0, 0), (5, 5, 5)]"
      and rs = "[(197 / 400, 0, 0)]" and env = steady_env and p = short_params and i = 0
      and moves = 0 and g = 0 and rs' = "[(1 / 2, 0, 0)]" and moves' = 1 and g' = 1 and n = 2
      and ?g0.0 = 0 and tr = banner
      and st = "\<lparr>r = [(3 / 200, 0, 0), (- (97 / 200), 1 / 2, 1 / 2)], rng = 4,
                 trace = short_run_trace\<rparr>"]
    short_run
  by (simp add: in_cell_closed_def move_atom_def np_delete_eval spec_env_simps short_params_def)

subsection \<open>Parameter input\<close>

lemma default_keys_eq:
  "default_keys = [''nblock'', ''nstep'', ''dr_max'', ''eps_box'', ''fast'']"
  by (simp add: default_keys_def defaults_def)

text \<open>
  Claim C7. For every parameter input that is a JSON object: if some key among \<open>nblock\<close>,
  \<open>nstep\<close>, \<open>dr_max\<close>, \<open>eps_box\<close>, \<open>fast\<close> has a value whose type differs from the type
  of its default, the run aborts with the assertion error of such a key, having printed
  nothing but the banner and warnings. Otherwise each key that is no default gives one
  warning, the run proceeds to the simulation with the parameters set, and every key
  absent from the input has its default value 10, 1000, 0.15, 0.005, true.
\<close>

theorem parameter_validation:
  "((key, v) \<in> set nml \<and> map_of defaults key = Some d \<and> type_of v \<noteq> type_of d \<longrightarrow>
      (\<exists>k ws. main env (Some (JObj nml)) cnf g0 =
                 Aborted (AssertionError (k @ '' has the wrong type'')) (banner @ map Warning ws) \<and>
              k \<in> set [''nblock'', ''nstep'', ''dr_max'', ''eps_box'', ''fast''])) \<and>
   (list_all well_typed nml \<longrightarrow>
      (\<exists>p. set_parameters nml = Inr p \<and>
           main env (Some (JObj nml)) cnf g0 =
             simulate env p cnf g0 (banner @ map Warning (unknown_keys nml)) \<and>
           (map_of nml ''nblock'' = None \<longrightarrow> nblock p = 10) \<and>
           (map_of nml ''nstep'' = None \<longrightarrow> nstep p = 1000) \<and>
           (map_of nml ''dr_max'' = None \<longrightarrow> dr_max p = 15 / 100) \<and>
           (map_of nml ''eps_box'' = None \<longrightarrow> eps_box p = 5 / 1000) \<and>
           (map_of nml ''fast'' = None \<longrightarrow> fast p = True)))"
proof (intro conjI impI)
  assume a: "(key, v) \<in> set nml \<and> map_of defaults key = Some d \<and> type_of v \<noteq> type_of d"
  then have "\<not> well_typed (key, v)" by (simp add: well_typed_def)
  with a have "\<not> list_all well_typed nml" by (auto simp: list_all_iff)
  from check_keys_fail[OF this, of banner] obtain k ws where
    "check_keys nml banner = Inl (AssertionError (k @ '' has the wrong type''), banner @ map Warning ws)"
    "k \<in> set default_keys" by blast
  then show "\<exists>k ws. main env (Some (JObj nml)) cnf g0 =
                 Aborted (AssertionError (k @ '' has the wrong type'')) (banner @ map Warning ws) \<and>
              k \<in> set [''nblock'', ''nstep'', ''dr_max'', ''eps_box'', ''fast'']"
    unfolding default_keys_eq by (auto simp: main_def)
next
  assume wt: "list_all well_typed nml"
  from set_parameters_pass[OF wt] obtain p where
    p: "set_parameters nml = Inr p \<and>
      (map_of nml ''nblock'' = None \<longrightarrow> nblock p = 10) \<and>
      (map_of nml ''nstep'' = None \<longrightarrow> nstep p = 1000) \<and>
      (map_of nml ''dr_max'' = None \<longrightarrow> dr_max p = 15 / 100) \<and>
      (map_of nml ''eps_box'' = None \<longrightarrow> eps_box p = 5 / 1000) \<and>
      (map_of nml ''fast'' = None \<longrightarrow> fast p = True)" ..
  then have sp: "set_parameters nml = Inr p" ..
  from check_keys_pass[OF wt, of banner] sp have
    "main env (Some (JObj nml)) cnf g0 =
       simulate env p cnf g0 (banner @ map Warning (unknown_keys nml))"
    by (simp add: main_def)
  with p show "\<exists>p. set_parameters nml = Inr p \<and>
           main env (Some (JObj nml)) cnf g0 =
             simulate env p cnf g0 (banner @ map Warning (unknown_keys nml)) \<and>
           (map_of nml ''nblock'' = None \<longrightarrow> nblock p = 10) \<and>
           (map_of nml ''nstep'' = None \<longrightarrow> nstep p = 1000) \<and>
           (map_of nml ''dr_max'' = None \<longrightarrow> dr_max p = 15 / 100) \<and>
           (map_of nml ''eps_box'' = None \<longrightarrow> eps_box p = 5 / 1000) \<and>
           (map_of nml ''fast'' = None \<longrightarrow> fast p = True)"
    by (intro exI[of _ p]) simp
qed

theorem parameter_validation_witness:
  "(''nstep'', JFloat 5) \<in> set [(''verbose'', JBool True), (''nstep'', JFloat 5)] \<and>
   map_of defaults ''nstep'' = Some (JInt 1000) \<and> type_of (JFloat 5) \<noteq> type_of (JInt 1000) \<and>
   main steady_env (Some (JObj [(''verbose'', JBool True), (''nstep'', JFloat 5)]))
       (2, 10, [(0, 0, 0), (5, 5, 5)]) 0 =
     Aborted (AssertionError ''nstep has the wrong type'') (banner @ [Warning ''verbose'']) \<and>
   list_all well_typed [(''verbose'', JBool True), (''nblock'', JInt 2), (''nstep'', JInt 1)] \<and>
   set_parameters [(''verbose'', JBool True), (''nblock'', JInt 2), (''nstep'', JInt 1)] =
     Inr short_params \<and>
   main steady_env (Some (JObj [(''verbose'', JBool True), (''nblock'', JInt 2), (''nstep'', JInt 1)]))
       (2, 10, [(0, 0, 0), (5, 5, 5)]) 0 =
     simulate steady_env short_params (2, 10, [(0, 0, 0), (5, 5, 5)]) 0
       (banner @ [Warning ''verbose''])"
  using parameter_validation [where key = "''nstep''" and v = "JFloat 5"
      and nml = "[(''verbose'', JBool True), (''nstep'', JFloat 5)]" and d = "JInt 1000"
      and env = steady_env and cnf = "(2, 10, [(0, 0, 0), (5, 5, 5)])" and ?g0.0 = 0]
    parameter_validation [where key = "''nstep''" and v = "JInt 1"
      and nml = "[(''verbose'', JBool True), (''nblock'', JInt 2), (''nstep'', JInt 1)]"
      and d = "JInt 1000"
      and env = steady_env and cnf = "(2, 10, [(0, 0, 0), (5, 5, 5)])" and ?g0.0 = 0]
  by (simp add: main_def set_parameters_def param_def defaults_def well_typed_def
      short_params_def unknown_keys_def)

subsection \<open>The initial overlap check\<close>

text \<open>
  Claim C4. When the parameters are accepted, the box length is not zero and the
  whole-configuration overlap test is true on the loaded positions, the run aborts with
  the assertion error \<open>Overlap in initial configuration\<close>. Up to then it has printed the
  banner, the warnings and the report of the load: no call of the averaging collaborator,
  no step, and no configuration file written.
\<close>

theorem initial_overlap_aborts:
  "list_all well_typed nml \<Longrightarrow> set_parameters nml = Inr p \<Longrightarrow> box \<noteq> 0 \<Longrightarrow>
   overlap (hs_module_of env p) box (load_positions box r_inp) \<Longrightarrow>
   main env (Some (JObj nml)) (n, box, r_inp) g0 =
     Aborted (AssertionError ''Overlap in initial configuration'')
       (banner @ map Warning (unknown_keys nml) @ load_report p n box) \<and>
   \<not> list_ex simulation_event (banner @ map Warning (unknown_keys nml) @ load_report p n box) \<and>
   checkpoints (banner @ map Warning (unknown_keys nml) @ load_report p n box) = []"
proof -
  assume wt: "list_all well_typed nml" and p: "set_parameters nml = Inr p" and b: "box \<noteq> 0"
    and ov: "overlap (hs_module_of env p) box (load_positions box r_inp)"
  from check_keys_pass[OF wt, of banner] p have
    "main env (Some (JObj nml)) (n, box, r_inp) g0 =
       simulate env p (n, box, r_inp) g0 (banner @ map Warning (unknown_keys nml))"
    by (simp add: main_def)
  also from b ov have "\<dots> = Aborted (AssertionError ''Overlap in initial configuration'')
       (banner @ map Warning (unknown_keys nml) @ load_report p n box)"
    by (simp add: simulate_def load_report_def Let_def)
  finally have A: "main env (Some (JObj nml)) (n, box, r_inp) g0 =
     Aborted (AssertionError ''Overlap in initial configuration'')
       (banner @ map Warning (unknown_keys nml) @ load_report p n box)" .
  have w: "\<not> list_ex simulation_event (map Warning ws)" "checkpoints (map Warning ws) = []" for ws
    by (induction ws) simp_all
  have c: "checkpoints (es @ fs) = checkpoints es @ checkpoints fs" for es fs
    by (induction es rule: checkpoints.induct) simp_all
  from A w[of "unknown_keys nml"] show ?thesis
    by (simp add: c) (simp add: banner_def load_report_def)
qed

theorem initial_overlap_aborts_witness:
  "list_all well_typed [] \<and> set_parameters [] = Inr default_params \<and> (10::real) \<noteq> 0 \<and>
   overlap (hs_module_of steady_env default_params) 10
     (load_positions 10 [(- 5, - 5, - 5), (5, 5, 5)]) \<and>
   main steady_env (Some (JObj [])) (2, 10, [(- 5, - 5, - 5), (5, 5, 5)]) 0 =
     Aborted (AssertionError ''Overlap in initial configuration'')
       (banner @ load_report default_params 2 10)"
  using initial_overlap_aborts [where nml = "[]" and p = default_params and box = 10
      and env = steady_env and r_inp = "[(- 5, - 5, - 5), (5, 5, 5)]" and n = 2 and ?g0.0 = 0]
  by (simp add: set_parameters_def param_def defaults_def unknown_keys_def load_positions_def
      spec_env_simps)

subsection \<open>Checkpoints\<close>

text \<open>
  Claim C8. A block that returns has run its steps, then closed the block in the averaging
  collaborator (\<open>blk_end\<close>), then written the current positions, multiplied by \<open>box\<close>, to
  the file whose tag is the block index padded with zeros to width 3 when the index is
  below 1000, and \<open>sav\<close> from 1000 on. A run that finishes has written one such file per
  block \<open>1, ..., nblock\<close>, in this order, and last the file with the tag \<open>out\<close>, holding
  the final positions multiplied by \<open>box\<close>.
\<close>

theorem block_checkpoints:
  "(run_block env p n box blk st = Inr st' \<longrightarrow>
      (\<exists>st1. run_steps env p n box (nat (nstep p)) (st\<lparr>trace := trace st @ [BlkBegin]\<rparr>) = Inr st1 \<and>
         r st' = r st1 \<and>
         trace st' = trace st1 @
           [BlkEnd blk,
            WriteCnfAtoms (cnf_prefix @ block_tag blk) n box (real_units box (r st'))])) \<and>
   (0 \<le> blk \<and> blk < 1000 \<longrightarrow>
      block_tag blk = replicate (3 - length (str_int blk)) CHR ''0'' @ str_int blk \<and>
      length (block_tag blk) = 3) \<and>
   (1000 \<le> blk \<longrightarrow> block_tag blk = ''sav'') \<and>
   real_units box rs = map (\<lambda>(x, y, z). (x * box, y * box, z * box)) rs \<and>
   (simulate env p (n, box, r_inp) g0 tr1 = Finished st2 \<longrightarrow>
      checkpoints (trace st2) =
        checkpoints tr1 @ map (\<lambda>blk. cnf_prefix @ block_tag blk) [1..nblock p] @
        [cnf_prefix @ out_tag] \<and>
      (\<exists>tr. trace st2 =
         tr @ [WriteCnfAtoms (cnf_prefix @ out_tag) n box (real_units box (r st2)), Conclusion]))"
proof (intro conjI impI)
  assume a: "run_block env p n box blk st = Inr st'"
  from run_block_Inr[OF a] show "\<exists>st1. run_steps env p n box (nat (nstep p)) (st\<lparr>trace := trace st @ [BlkBegin]\<rparr>) = Inr st1 \<and>
         r st' = r st1 \<and>
         trace st' = trace st1 @
           [BlkEnd blk,
            WriteCnfAtoms (cnf_prefix @ block_tag blk) n box (real_units box (r st'))]"
    by auto
next
  assume "0 \<le> blk \<and> blk < 1000"
  then have "0 \<le> blk" "blk < 1000" by simp_all
  note pad = block_tag_padded[OF this]
  from pad show "block_tag blk = replicate (3 - length (str_int blk)) CHR ''0'' @ str_int blk"
    by (rule conjunct1)
  from pad show "length (block_tag blk) = 3" by (rule conjunct2)
next
  assume "1000 \<le> blk"
  then show "block_tag blk = ''sav''" by (simp add: block_tag_def)
next
  show "real_units box rs = map (\<lambda>(x, y, z). (x * box, y * box, z * box)) rs"
    by (auto simp: real_units_def)
next
  assume f: "simulate env p (n, box, r_inp) g0 tr1 = Finished st2"
  from simulate_Finished[OF f] obtain vs ev st1 vs' ev' where
    c1: "calculate env p n box (load_positions box r_inp) None (Some ''Initial values'') = Inr (vs, ev)"
    and rb: "run_blocks env p n box [1..nblock p]
          \<lparr>r = load_positions box r_inp, rng = g0,
           trace = tr1 @ [Introduction,
               PrintInt ''Number of blocks'' (nblock p),
               PrintInt ''Number of steps per block'' (nstep p),
               PrintReal ''Maximum displacement'' (dr_max p),
               PrintReal ''Pressure scaling parameter'' (eps_box p),
               PrintInt ''Number of particles'' (int n),
               PrintReal ''Box length'' box, PrintReal ''Density'' (real n / box ^ 3)] @ ev @ [RunBegin vs]\<rparr> = Inr st1"
    and c2: "calculate env p n box (r st1) None (Some ''Final values'') = Inr (vs', ev')"
    and st2: "st2 = st1\<lparr>trace := trace st1 @ [RunEnd] @ ev' @
              [WriteCnfAtoms (cnf_prefix @ out_tag) n box (real_units box (r st1)), Conclusion]\<rparr>"
    by blast
  from run_blocks_checkpoints[OF rb] calculate_checkpoints[OF c1]
  have "checkpoints (trace st1) =
      checkpoints tr1 @ map (\<lambda>blk. cnf_prefix @ block_tag blk) [1..nblock p]"
    by (simp add: checkpoints_append)
  with calculate_checkpoints[OF c2] st2
  show "checkpoints (trace st2) =
        checkpoints tr1 @ map (\<lambda>blk. cnf_prefix @ block_tag blk) [1..nblock p] @
        [cnf_prefix @ out_tag]"
    by (simp add: checkpoints_append)
  from st2 show "\<exists>tr. trace st2 =
         tr @ [WriteCnfAtoms (cnf_prefix @ out_tag) n box (real_units box (r st2)), Conclusion]"
    by (intro exI[of _ "trace st1 @ [RunEnd] @ ev'"]) simp
qed

theorem block_checkpoints_witness:
  "run_block steady_env short_params 2 10 1
       \<lparr>r = [(0, 0, 0), (1 / 2, 1 / 2, 1 / 2)], rng = 0, trace = []\<rparr> =
     Inr \<lparr>r = [(3 / 400, 0, 0), (- (197 / 400), 1 / 2, 1 / 2)], rng = 2,
          trace = [BlkBegin,
                   BlkAdd [\<lparr>nam = ''Move ratio'', val = 1\<rparr>, \<lparr>nam = ''P'', val = 1 / 500\<rparr>],
                   BlkEnd 1,
                   WriteCnfAtoms ''cnf.001'' 2 10 [(3 / 40, 0, 0), (- (197 / 40), 5, 5)]]\<rparr> \<and>
   (0::int) \<le> 42 \<and> (42::int) < 1000 \<and> block_tag 42 = ''042'' \<and>
   (1000::int) \<le> 1000 \<and> block_tag 1000 = ''sav'' \<and>
   simulate steady_env short_params (2, 10, [(0, 0, 0), (5, 5, 5)]) 0 banner =
     Finished \<lparr>r = [(3 / 200, 0, 0), (- (97 / 200), 1 / 2, 1 / 2)], rng = 4,
               trace = short_run_trace\<rparr> \<and>
   checkpoints short_run_trace = [''cnf.001'', ''cnf.002'', ''cnf.out'']"
  using block_checkpoints [where env = steady_env and p = short_params and n = 2 and box = 10
      and blk = 1 and st = "\<lparr>r = [(0, 0, 0), (1 / 2, 1 / 2, 1 / 2)], rng = 0, trace = []\<rparr>"
      and st' = "\<lparr>r = [(3 / 400, 0, 0), (- (197 / 400), 1 / 2, 1 / 2)], rng = 2,
          trace = [BlkBegin,
                   BlkAdd [\<lparr>nam = ''Move ratio'', val = 1\<rparr>, \<lparr>nam = ''P'', val = 1 / 500\<rparr>],
                   BlkEnd 1,
                   WriteCnfAtoms ''cnf.001'' 2 10 [(3 / 40, 0, 0), (- (197 / 40), 5, 5)]]\<rparr>"
      and r_inp = "[(0, 0, 0), (5, 5, 5)]" and ?g0.0 = 0 and ?tr1.0 = banner
      and ?st2.0 = "\<lparr>r = [(3 / 200, 0, 0), (- (97 / 200), 1 / 2, 1 / 2)], rng = 4,
               trace = short_run_trace\<rparr>"]
    block_checkpoints [where blk = 42] block_checkpoints [where blk = 1000]
    short_run
  by (simp add: run_block_def step_def upt_eval move_atom_def np_delete_eval calculate_def
      spec_env_simps short_params_def block_tag_eval real_units_def cnf_prefix_def
      short_run_trace_def)

subsection \<open>No overlap, from the load to the end of the run\<close>

lemma check_keys_error:
  "check_keys nml tr0 = Inl (e, tr) \<Longrightarrow> \<exists>key. e = AssertionError (key @ '' has the wrong type'')"
  by (induction nml arbitrary: tr0) (auto split: option.splits if_splits)

lemma set_parameters_error: "set_parameters nml = Inl e \<Longrightarrow> e = TypeError"
  by (auto simp: set_parameters_def split: option.splits json.splits)

lemma wrong_type_message: "key @ '' has the wrong type'' \<noteq> ''Overlap in final configuration''"
proof
  assume "key @ '' has the wrong type'' = ''Overlap in final configuration''"
  then have "last (key @ '' has the wrong type'') = last ''Overlap in final configuration''"
    by (rule arg_cong)
  then show False by simp
qed

lemma simulate_spec_no_final_overlap:
  "simulate (spec_collaborators u) p (n, box, r_inp) g0 tr1 \<noteq>
     Aborted (AssertionError ''Overlap in final configuration'') tr"
proof
  assume "simulate (spec_collaborators u) p (n, box, r_inp) g0 tr1 =
     Aborted (AssertionError ''Overlap in final configuration'') tr"
  from simulate_final_overlap[OF this] obtain st tr' where
    a: "\<not> overlapsAny box (load_positions box r_inp)" and
    b: "run_blocks (spec_collaborators u) p n box [1..nblock p]
             \<lparr>r = load_positions box r_inp, rng = g0, trace = tr'\<rparr> = Inr st" and
    c: "overlapsAny box (r st)"
    by (auto simp: spec_module_def)
  from a have "\<not> overlapsAny box (r \<lparr>r = load_positions box r_inp, rng = g0, trace = tr'\<rparr>)"
    by simp
  then have "\<not> overlapsAny box (r st)"
    by (rule run_blocks_invariant[where P = "\<lambda>rs. \<not> overlapsAny box rs", rotated 1, OF _ b])
       (erule (1) move_atom_keeps_no_overlap)
  with c show False by simp
qed

text \<open>
  Claim C3, with the overlap routines as the specification describes them. A trial move
  on a configuration that the whole-configuration test accepts leaves a configuration
  that the test accepts again: no two distinct particles have a minimum-image separation
  below the diameter 1 (squared distance times \<open>box\<^sup>2\<close> at least 1). So a run never fails
  the check at its end, which would abort it with \<open>Overlap in final configuration\<close>, and
  a run that finishes started and ended without overlap.
\<close>

theorem accepted_moves_keep_no_overlap:
  "(\<not> overlapsAny box rs \<and>
    move_atom (spec_collaborators u) p box i (rs, m, g) = Inr (rs', m', g') \<longrightarrow>
      \<not> overlapsAny box rs' \<and>
      (\<forall>a b. a < length rs' \<and> b < length rs' \<and> a \<noteq> b \<longrightarrow>
         1 \<le> squaredDistance (rs' ! a) (rs' ! b) * box ^ 2)) \<and>
   main (spec_collaborators u) stdin (n, box, r_inp) g0 \<noteq>
     Aborted (AssertionError ''Overlap in final configuration'') tr \<and>
   (simulate (spec_collaborators u) p (n, box, r_inp) g0 tr1 = Finished st \<longrightarrow>
      \<not> overlapsAny box (load_positions box r_inp) \<and> \<not> overlapsAny box (r st))"
proof (intro conjI impI)
  assume a: "\<not> overlapsAny box rs \<and>
    move_atom (spec_collaborators u) p box i (rs, m, g) = Inr (rs', m', g')"
  then have a1: "\<not> overlapsAny box rs"
    and a2: "move_atom (spec_collaborators u) p box i (rs, m, g) = Inr (rs', m', g')" by simp_all
  show n: "\<not> overlapsAny box rs'" by (rule move_atom_keeps_no_overlap[OF a1 a2])
  from n[unfolded overlapsAny_pairs]
  show "\<forall>a b. a < length rs' \<and> b < length rs' \<and> a \<noteq> b \<longrightarrow>
         1 \<le> squaredDistance (rs' ! a) (rs' ! b) * box ^ 2"
    by (simp add: pair_overlaps_def not_less)
next
  show "main (spec_collaborators u) stdin (n, box, r_inp) g0 \<noteq>
     Aborted (AssertionError ''Overlap in final configuration'') tr"
  proof
    assume "main (spec_collaborators u) stdin (n, box, r_inp) g0 =
      Aborted (AssertionError ''Overlap in final configuration'') tr"
    then show False
      by (auto simp: main_def simulate_spec_no_final_overlap wrong_type_message
          split: option.splits json.splits sum.splits prod.splits
          dest!: check_keys_error set_parameters_error)
  qed
next
  assume f: "simulate (spec_collaborators u) p (n, box, r_inp) g0 tr1 = Finished st"
  from simulate_Finished[OF f]
  show l: "\<not> overlapsAny box (load_positions box r_inp)" by (auto simp: spec_module_def)
  show "\<not> overlapsAny box (r st)"
    by (rule simulate_invariant[where P = "\<lambda>rs. \<not> overlapsAny box rs", OF _ l f])
       (erule (1) move_atom_keeps_no_overlap)
qed

theorem accepted_moves_keep_no_overlap_witness:
  "\<not> overlapsAny 10 [(0, 0, 0), (1 / 2, 1 / 2, 1 / 2)] \<and>
   move_atom (spec_collaborators steady_uniform3) short_params 10 1
       ([(0, 0, 0), (1 / 2, 1 / 2, 1 / 2)], 0, 7) =
     Inr ([(0, 0, 0), (- 197 / 400, 1 / 2, 1 / 2)], 1, 8) \<and>
   \<not> overlapsAny 10 [(0, 0, 0), (- 197 / 400, 1 / 2, 1 / 2)] \<and>
   simulate (spec_collaborators steady_uniform3) short_params (2, 10, [(0, 0, 0), (5, 5, 5)]) 0
       banner =
     Finished \<lparr>r = [(3 / 200, 0, 0), (- (97 / 200), 1 / 2, 1 / 2)], rng = 4,
               trace = short_run_trace\<rparr> \<and>
   \<not> overlapsAny 10 [(3 / 200, 0, 0), (- (97 / 200), 1 / 2, 1 / 2)]"
  using accepted_moves_keep_no_overlap [where box = 10
      and rs = "[(0, 0, 0), (1 / 2, 1 / 2, 1 / 2)]" and u = steady_uniform3
      and p = short_params and i = 1 and m = 0 and g = 7
      and rs' = "[(0, 0, 0), (- 197 / 400, 1 / 2, 1 / 2)]" and m' = 1 and g' = 8
      and n = 2 and r_inp = "[(0, 0, 0), (5, 5, 5)]" and ?g0.0 = 0 and ?tr1.0 = banner
      and st = "\<lparr>r = [(3 / 200, 0, 0), (- (97 / 200), 1 / 2, 1 / 2)], rng = 4,
               trace = short_run_trace\<rparr>"]
    short_run [unfolded steady_env_def]
  by (simp add: move_atom_def np_delete_eval spec_env_simps short_params_def)

subsection \<open>Two spheres and no displacement\<close>

text \<open>
  Claim C5, as stated: with \<open>n = 2\<close>, \<open>box = 10\<close>, the two spheres at opposite corners of the
  box and \<open>dr_max = 0\<close>, every step has the move ratio 0 and the pressure is the ideal-gas
  term \<open>2/1000\<close>. With the overlap routines as the specification describes them, opposite
  corners of a periodic box are images of one point: for the corners of the box centred
  at the origin and for those of the box from 0 to 10 alike, the run aborts with
  \<open>Overlap in initial configuration\<close> before any step. On two spheres that do pass the
  check (centre and corner), a step with \<open>dr_max = 0\<close> accepts both trial moves, each to
  the position the particle already has, and its move ratio is 1.
\<close>

theorem opposite_corners_overlap_and_null_moves_count:
  "main steady_env (Some (JObj [(''dr_max'', JFloat 0)]))
       (2, 10, [(- 5, - 5, - 5), (5, 5, 5)]) 0 =
     Aborted (AssertionError ''Overlap in initial configuration'')
       (banner @ load_report still_params 2 10) \<and>
   main steady_env (Some (JObj [(''dr_max'', JFloat 0)]))
       (2, 10, [(0, 0, 0), (10, 10, 10)]) 0 =
     Aborted (AssertionError ''Overlap in initial configuration'')
       (banner @ load_report still_params 2 10) \<and>
   step steady_env still_params 2 10
       \<lparr>r = load_positions 10 [(0, 0, 0), (5, 5, 5)], rng = 0, trace = []\<rparr> =
     Inr \<lparr>r = [(0, 0, 0), (1 / 2, 1 / 2, 1 / 2)], rng = 2,
          trace = [BlkAdd [\<lparr>nam = ''Move ratio'', val = 1\<rparr>, \<lparr>nam = ''P'', val = 1 / 500\<rparr>]]\<rparr>"
  by (simp add: main_def check_keys.simps set_parameters_def param_def defaults_def
      simulate_def load_report_def load_positions_def still_params_def banner_def
      step_def upt_eval move_atom_def np_delete_eval calculate_def spec_env_simps)

text \<open>
  Claim C5, amended: with \<open>n = 2\<close>, \<open>box = 10\<close>, \<open>dr_max = 0\<close> and two stored positions
  that pass the whole-configuration overlap check, any number of steps leaves the
  positions as they are, and every step has the move ratio 1 and the pressure
  \<open>2/1000 + N/(3*eps_box)/1000\<close>, \<open>N\<close> being the overlap count in the contracted box; this
  is the ideal-gas term \<open>2/1000\<close> when no pair overlaps in the contracted box.
\<close>

theorem null_moves_all_accepted:
  "dr_max p = 0 \<Longrightarrow> eps_box p \<noteq> 0 \<Longrightarrow> eps_box p \<noteq> - 1 \<Longrightarrow> length (r st) = 2 \<Longrightarrow>
   list_all in_cell_closed (r st) \<Longrightarrow> \<not> overlapsAny 10 (r st) \<Longrightarrow>
   (\<exists>st' P. run_steps (spec_collaborators u) p 2 10 k st = Inr st' \<and> r st' = r st \<and>
      trace st' = trace st @ replicate k
          (BlkAdd [\<lparr>nam = ''Move ratio'', val = 1\<rparr>, \<lparr>nam = ''P'', val = P\<rparr>]) \<and>
      P = 2 / 1000 + real_of_int (countOverlaps (10 / (1 + eps_box p)) (r st))
                        / (3 * eps_box p) / 1000 \<and>
      (\<not> overlapsAny (10 / (1 + eps_box p)) (r st) \<longrightarrow> P = 2 / 1000))"
proof -
  assume dr: "dr_max p = 0" and e: "eps_box p \<noteq> 0" "eps_box p \<noteq> - 1"
    and l: "length (r st) = 2" and cell: "list_all in_cell_closed (r st)"
    and no: "\<not> overlapsAny 10 (r st)"
  have b: "(10::real) \<noteq> 0" by simp
  from l have n: "0 < length (r st)" by simp
  from null_steps[OF dr e b n cell no, of u k] obtain st' where
    "run_steps (spec_collaborators u) p (length (r st)) 10 k st = Inr st' \<and> r st' = r st \<and>
      trace st' = trace st @ replicate k
            (BlkAdd [\<lparr>nam = ''Move ratio'', val = 1\<rparr>,
                     \<lparr>nam = ''P'',
                        val = real (length (r st)) / 10 ^ 3 +
                          real_of_int (countOverlaps (10 / (1 + eps_box p)) (r st))
                            / (3 * eps_box p) / 10 ^ 3\<rparr>])" ..
  with l countOverlaps_zero[of "10 / (1 + eps_box p)" "r st"] show ?thesis
    by (intro exI[of _ st'] exI[of _ "2 / 1000 +
          real_of_int (countOverlaps (10 / (1 + eps_box p)) (r st)) / (3 * eps_box p) / 1000"])
       auto
qed

theorem null_moves_all_accepted_witness:
  "dr_max still_params = 0 \<and> eps_box still_params \<noteq> 0 \<and> eps_box still_params \<noteq> - 1 \<and>
   length [(0, 0, 0), (1 / 2, 1 / 2, 1 / 2) :: vec] = 2 \<and>
   list_all in_cell_closed [(0, 0, 0), (1 / 2, 1 / 2, 1 / 2)] \<and>
   \<not> overlapsAny 10 [(0, 0, 0), (1 / 2, 1 / 2, 1 / 2)] \<and>
   \<not> overlapsAny (10 / (1 + eps_box still_params)) [(0, 0, 0), (1 / 2, 1 / 2, 1 / 2)] \<and>
   run_steps (spec_collaborators steady_uniform3) still_params 2 10 (Suc (Suc 0))
       \<lparr>r = [(0, 0, 0), (1 / 2, 1 / 2, 1 / 2)], rng = 0, trace = []\<rparr> =
     Inr \<lparr>r = [(0, 0, 0), (1 / 2, 1 / 2, 1 / 2)], rng = 4,
          trace = [BlkAdd [\<lparr>nam = ''Move ratio'', val = 1\<rparr>, \<lparr>nam = ''P'', val = 2 / 1000\<rparr>],
                   BlkAdd [\<lparr>nam = ''Move ratio'', val = 1\<rparr>, \<lparr>nam = ''P'', val = 2 / 1000\<rparr>]]\<rparr>"
  using null_moves_all_accepted [where p = still_params
      and st = "\<lparr>r = [(0, 0, 0), (1 / 2, 1 / 2, 1 / 2)], rng = 0, trace = []\<rparr>"
      and u = steady_uniform3 and k = "Suc (Suc 0)"]
  by (simp add: still_params_def in_cell_closed_def step_def upt_eval move_atom_def
      np_delete_eval calculate_def spec_env_simps)

end
